theory Spec2Isabelle
  imports Main
begin

section \<open>The tmate ssh client (tmate-ssh-client.c)\<close>

text \<open>
  The file drives one ssh connection attempt per server address through a switch with
  fall-through cases (\<^verbatim>\<open>on_ssh_client_event\<close>). The model keeps the C control flow: each
  case of the switch is a function that ends by calling the function of the next case where the
  C code falls through. Calls into libssh, libevent and tmux are not part of the file: what they
  answer during one invocation is a record of responses (\<open>ssh_lib\<close>), and what the file
  asks of them that a property below speaks about is appended to a trace of effects.
\<close>

subsection \<open>Data\<close>

type_synonym client_id = nat

datatype ssh_state =
    SSH_NONE | SSH_INIT | SSH_CONNECT | SSH_AUTH_SERVER | SSH_AUTH_CLIENT
  | SSH_OPEN_CHANNEL | SSH_BOOTSTRAP | SSH_READY

text \<open>
  Return codes of libssh. \<open>SSH_EOF\<close> stands for a value that none of the \<^verbatim>\<open>case\<close>
  labels of the inner switches names: such a switch has no \<^verbatim>\<open>default\<close>, so control
  leaves it and reaches the next outer \<^verbatim>\<open>case\<close> without a change of state.
\<close>

datatype ssh_rc = SSH_OK | SSH_AGAIN | SSH_ERROR | SSH_EOF

datatype ssh_auth_rc =
    SSH_AUTH_SUCCESS | SSH_AUTH_DENIED | SSH_AUTH_PARTIAL | SSH_AUTH_INFO
  | SSH_AUTH_AGAIN | SSH_AUTH_ERROR

datatype ssh_keytypes =
    SSH_KEYTYPE_UNKNOWN | SSH_KEYTYPE_DSS | SSH_KEYTYPE_RSA | SSH_KEYTYPE_RSA1
  | SSH_KEYTYPE_ECDSA

text \<open>A libevent \<^verbatim>\<open>struct event\<close>: whether it was assigned, and whether it is added.\<close>

record event =
  ev_initialized :: bool
  ev_pending :: bool

text \<open>
  \<^verbatim>\<open>struct tmate_ssh_client\<close>. The handles \<open>session\<close> and \<open>channel\<close> are \<open>True\<close> when the
  pointer is not NULL. \<open>freed\<close> is a ghost field: \<^verbatim>\<open>free(client)\<close> sets it and leaves the
  other fields as they are, so a read through a stale pointer sees the last values.
\<close>

record tmate_ssh_client =
  state :: ssh_state
  server_ip :: string
  session :: bool
  channel :: bool
  has_encoder :: bool
  tried_passphrase :: "string option"
  ev_ssh :: event
  ev_ssh_reconnect :: event
  freed :: bool

text \<open>
  The mode of the first window pane, where the passphrase prompt is shown:
  no mode, a mode whose input type is not the password one, or the password prompt with
  the client that \<^verbatim>\<open>password_cb_private\<close> holds.
\<close>

datatype pane_mode = NoMode | OtherMode | PasswordMode client_id

datatype effect =
    StatusMessage string
  | Debug string
  | TailqRemove client_id
  | EventDel client_id
  | SshFree client_id
  | Free client_id
  | OptionsSetIdentity client_id string
  | Userauth client_id "string option"
  | DecoderCommit int

text \<open>
  \<^verbatim>\<open>struct tmate_session\<close> with the memory of its clients. \<open>clients\<close> is the tail queue,
  \<open>encoder\<close> and \<open>decoder\<close> hold the \<^verbatim>\<open>userdata\<close> of the callbacks installed by
  \<^verbatim>\<open>tmate_encoder_set_ready_callback\<close> and \<^verbatim>\<open>tmate_decoder_init\<close>.
\<close>

record tmate_session =
  clients :: "client_id list"
  need_passphrase :: bool
  passphrase :: "string option"
  encoder :: "client_id option"
  decoder :: "client_id option"
  heap :: "client_id \<Rightarrow> tmate_ssh_client"
  next_client :: client_id
  pane :: pane_mode
  trace :: "effect list"

text \<open>The tmux options the file reads (\<^verbatim>\<open>global_options\<close>).\<close>

record options =
  tmate_identity :: string
  tmate_server_rsa_fingerprint :: string
  tmate_server_ecdsa_fingerprint :: string
  tmate_server_port :: int

text \<open>
  What the libraries answer during one invocation of \<^verbatim>\<open>on_ssh_client_event\<close>.
  \<open>ssh_channel_read_nonblocking_r\<close> lists the results of the successive reads of the drain
  loop; once the list is used up a read returns 0 (nothing more is available).
  \<open>auth_function_called\<close> says whether libssh invoked \<^verbatim>\<open>passphrase_callback\<close> during
  \<^verbatim>\<open>ssh_userauth_autopubkey\<close>, and \<open>auth_function_len\<close> is the size of the buffer it passed.
\<close>

record ssh_lib =
  ssh_new_r :: bool
  ssh_channel_new_r :: bool
  ssh_connect_r :: ssh_rc
  ssh_get_publickey_r :: bool
  ssh_get_publickey_hash_r :: bool
  ssh_get_hexa_r :: "string option"
  ssh_key_type_r :: ssh_keytypes
  ssh_userauth_autopubkey_r :: ssh_auth_rc
  auth_function_called :: bool
  auth_function_len :: nat
  ssh_channel_open_session_r :: ssh_rc
  ssh_channel_request_subsystem_r :: ssh_rc
  ssh_channel_read_nonblocking_r :: "int list"
  ssh_is_connected_r :: bool
  ssh_get_error_r :: string

text \<open>
  Modelled from the spec: \<^verbatim>\<open>tmate_fatal\<close> is a macro of tmate.h, which is not among the
  sources; the specification calls its failures fatal and process-terminating. \<open>Fatal\<close> is
  that end of the process. \<open>AssertFailed\<close> is the abort of a failed \<^verbatim>\<open>assert\<close>.
\<close>

datatype error = Fatal string | AssertFailed

subsection \<open>Teardown\<close>

definition upd_client :: "client_id \<Rightarrow> (tmate_ssh_client \<Rightarrow> tmate_ssh_client) \<Rightarrow> tmate_session \<Rightarrow> tmate_session" where
  "upd_client c f w = w\<lparr>heap := (heap w)(c := f (heap w c))\<rparr>"

definition emit :: "effect \<Rightarrow> tmate_session \<Rightarrow> tmate_session" where
  "emit e w = w\<lparr>trace := trace w @ [e]\<rparr>"

text \<open>
  \<^verbatim>\<open>TAILQ_REMOVE\<close>. On a client that is not in the queue the list stays as it is (the macro
  then rewrites the links its stale pointers name); the trace records every removal.
\<close>

definition tailq_remove :: "client_id \<Rightarrow> tmate_session \<Rightarrow> tmate_session" where
  "tailq_remove c w = emit (TailqRemove c) (w\<lparr>clients := remove1 c (clients w)\<rparr>)"

text \<open>\<^verbatim>\<open>__kill_ssh_client\<close>; \<open>fmt\<close> is \<open>None\<close> for a NULL format, else the formatted message.\<close>

definition do_kill_ssh_client :: "client_id \<Rightarrow> string option \<Rightarrow> tmate_session \<Rightarrow> tmate_session" where
  "do_kill_ssh_client c fmt w =
     (let w1 = (case fmt of
                  Some msg \<Rightarrow>
                    if clients w = [] then emit (StatusMessage msg) w
                    else emit (Debug (''Disconnecting '' @ server_ip (heap w c))) w
                | None \<Rightarrow> emit (Debug (''Disconnecting '' @ server_ip (heap w c))) w);
          w2 = (if ev_initialized (ev_ssh (heap w1 c))
                then emit (EventDel c)
                       (upd_client c (\<lambda>cl. cl\<lparr>ev_ssh := (ev_ssh cl)\<lparr>ev_pending := False\<rparr>\<rparr>) w1)
                else w1);
          w3 = (if session (heap w2 c)
                then upd_client c (\<lambda>cl. cl\<lparr>session := False, channel := False\<rparr>)
                       (emit (SshFree c) w2)
                else w2)
      in upd_client c (\<lambda>cl. cl\<lparr>state := SSH_NONE\<rparr>) w3)"

definition free_client :: "client_id \<Rightarrow> tmate_session \<Rightarrow> tmate_session" where
  "free_client c w = upd_client c (\<lambda>cl. cl\<lparr>freed := True\<rparr>) (emit (Free c) w)"

definition kill_ssh_client :: "client_id \<Rightarrow> string option \<Rightarrow> tmate_session \<Rightarrow> tmate_session" where
  "kill_ssh_client c fmt w = free_client c (do_kill_ssh_client c fmt (tailq_remove c w))"

text \<open>The timer of \<open>ev_ssh_reconnect\<close> is not added: that code is under \<^verbatim>\<open>#if 0\<close>.\<close>

definition reconnect_ssh_client :: "client_id \<Rightarrow> string option \<Rightarrow> tmate_session \<Rightarrow> tmate_session" where
  "reconnect_ssh_client c fmt w = do_kill_ssh_client c fmt (tailq_remove c w)"

subsection \<open>Helpers of the state machine\<close>

fun read_channel :: "client_id \<Rightarrow> string \<Rightarrow> int list \<Rightarrow> tmate_session \<Rightarrow> tmate_session" where
  "read_channel c err [] w = w"
| "read_channel c err (len # rest) w =
     (if len < 0 then
        reconnect_ssh_client c (Some (''Error reading from channel: '' @ err)) w
      else if len = 0 then w
      else read_channel c err rest (emit (DecoderCommit len) w))"

text \<open>
  \<^verbatim>\<open>on_ssh_auth_server_complete\<close>: \<^verbatim>\<open>TAILQ_FOREACH_SAFE\<close> visits the clients that are in the
  queue when the loop starts; the body removes only the client it visits.
\<close>

fun kill_other_clients :: "client_id \<Rightarrow> client_id list \<Rightarrow> tmate_session \<Rightarrow> error + tmate_session" where
  "kill_other_clients connected_client [] w = Inr w"
| "kill_other_clients connected_client (client # rest) w =
     (if client = connected_client then kill_other_clients connected_client rest w
      else if has_encoder (heap w client) then Inl AssertFailed
      else kill_other_clients connected_client rest (kill_ssh_client client None w))"

definition on_ssh_auth_server_complete :: "client_id \<Rightarrow> tmate_session \<Rightarrow> error + tmate_session" where
  "on_ssh_auth_server_complete connected_client w =
     kill_other_clients connected_client (clients w) w"

text \<open>
  \<^verbatim>\<open>get_identity\<close>, as a function of the option's value. \<open>None\<close> is the NULL result;
  the format \<^verbatim>\<open>"%%d/%s"\<close> prints a percent sign, \<open>d/\<close> and the string.
\<close>

definition get_identity :: "string \<Rightarrow> string option" where
  "get_identity identity =
     (if length identity = 0 then None
      else if CHR ''/'' \<in> set identity then Some identity
      else Some (''%d/'' @ identity))"

text \<open>
  \<^verbatim>\<open>passphrase_callback\<close>: the session with \<open>need_passphrase\<close> set, and what is written to the
  buffer: \<^verbatim>\<open>strncpy\<close> copies at most \<open>len\<close> characters of the cached passphrase, and without
  one the buffer holds the empty string.
\<close>

definition passphrase_callback :: "nat \<Rightarrow> tmate_session \<Rightarrow> tmate_session \<times> string" where
  "passphrase_callback len w =
     (w\<lparr>need_passphrase := True\<rparr>,
      (case passphrase w of Some p \<Rightarrow> take len p | None \<Rightarrow> []))"

text \<open>
  \<^verbatim>\<open>request_passphrase\<close>: nothing changes when the pane already shows the password prompt;
  otherwise the pane's mode is reset and the prompt installed with this client as the
  callback's private data.
\<close>

definition request_passphrase :: "client_id \<Rightarrow> tmate_session \<Rightarrow> tmate_session" where
  "request_passphrase c w =
     (case pane w of
        PasswordMode other \<Rightarrow> w
      | _ \<Rightarrow> w\<lparr>pane := PasswordMode c\<rparr>)"

definition register_session_fd_event :: "client_id \<Rightarrow> tmate_session \<Rightarrow> tmate_session" where
  "register_session_fd_event c w =
     (if \<not> ev_initialized (ev_ssh (heap w c))
      then upd_client c (\<lambda>cl. cl\<lparr>ev_ssh := \<lparr>ev_initialized = True, ev_pending = True\<rparr>\<rparr>) w
      else w)"

subsection \<open>The state machine\<close>

text \<open>
  \<^verbatim>\<open>case SSH_READY\<close>. The test \<^verbatim>\<open>ssh_is_connected(session)\<close> uses the local copy of the
  handle taken when the function was entered, also after \<open>read_channel\<close> has torn the client down.
\<close>

definition on_ready :: "ssh_lib \<Rightarrow> client_id \<Rightarrow> tmate_session \<Rightarrow> error + tmate_session" where
  "on_ready lib c w =
     (let w1 = read_channel c (ssh_get_error_r lib) (ssh_channel_read_nonblocking_r lib) w
      in if \<not> ssh_is_connected_r lib
         then Inr (reconnect_ssh_client c (Some ''Disconnected'') w1)
         else Inr w1)"

definition on_bootstrap :: "ssh_lib \<Rightarrow> client_id \<Rightarrow> tmate_session \<Rightarrow> error + tmate_session" where
  "on_bootstrap lib c w =
     (case ssh_channel_request_subsystem_r lib of
        SSH_AGAIN \<Rightarrow> Inr w
      | SSH_ERROR \<Rightarrow>
          Inr (reconnect_ssh_client c
                 (Some (''Error initializing tmate: '' @ ssh_get_error_r lib)) w)
      | SSH_OK \<Rightarrow>
          on_ready lib c
            ((upd_client c (\<lambda>cl. cl\<lparr>state := SSH_READY\<rparr>) (emit (Debug ''Ready'') w))
               \<lparr>encoder := Some c, decoder := Some c\<rparr>)
      | SSH_EOF \<Rightarrow> on_ready lib c w)"

definition on_open_channel :: "ssh_lib \<Rightarrow> client_id \<Rightarrow> tmate_session \<Rightarrow> error + tmate_session" where
  "on_open_channel lib c w =
     (case ssh_channel_open_session_r lib of
        SSH_AGAIN \<Rightarrow> Inr w
      | SSH_ERROR \<Rightarrow>
          Inr (reconnect_ssh_client c
                 (Some (''Error opening channel: '' @ ssh_get_error_r lib)) w)
      | SSH_OK \<Rightarrow>
          on_bootstrap lib c
            (upd_client c (\<lambda>cl. cl\<lparr>state := SSH_BOOTSTRAP\<rparr>)
               (emit (Debug ''Session opened, initalizing tmate'') w))
      | SSH_EOF \<Rightarrow> on_bootstrap lib c w)"

definition keys_not_found :: string where
  "keys_not_found =
     ''SSH keys not found. Run '' @ [CHR 0x27] @ ''ssh-keygen'' @ [CHR 0x27] @
     '' to create keys and try again.''"

definition retry_hint :: string where
  "retry_hint =
     ''Can'' @ [CHR 0x27] @
     ''t load SSH key. Try typing passphrase again in case of typo. ctrl-c to abort.''"

text \<open>
  What follows the return codes PARTIAL, INFO and DENIED of the authentication. The last test
  reads \<^verbatim>\<open>client->tried_passphrase\<close> after \<open>kill_ssh_client\<close> may have freed the client.
\<close>

definition auth_denied :: "client_id \<Rightarrow> tmate_session \<Rightarrow> tmate_session" where
  "auth_denied c w =
     (let w1 = (if need_passphrase w then request_passphrase c w
                else kill_ssh_client c (Some keys_not_found) w)
      in if tried_passphrase (heap w1 c) \<noteq> None
         then emit (StatusMessage retry_hint) w1
         else w1)"

text \<open>
  \<^verbatim>\<open>case SSH_AUTH_CLIENT\<close>. The call of \<^verbatim>\<open>ssh_userauth_autopubkey\<close> is recorded with the
  passphrase it is given; libssh may call \<open>passphrase_callback\<close> before it returns.
\<close>

definition on_auth_client :: "ssh_lib \<Rightarrow> client_id \<Rightarrow> tmate_session \<Rightarrow> error + tmate_session" where
  "on_auth_client lib c w =
     (let w1 = upd_client c (\<lambda>cl. cl\<lparr>tried_passphrase := passphrase w\<rparr>) w;
          w2 = emit (Userauth c (tried_passphrase (heap w1 c))) w1;
          w3 = (if auth_function_called lib
                then fst (passphrase_callback (auth_function_len lib) w2) else w2)
      in case ssh_userauth_autopubkey_r lib of
           SSH_AUTH_AGAIN \<Rightarrow> Inr w3
         | SSH_AUTH_PARTIAL \<Rightarrow> Inr (auth_denied c w3)
         | SSH_AUTH_INFO \<Rightarrow> Inr (auth_denied c w3)
         | SSH_AUTH_DENIED \<Rightarrow> Inr (auth_denied c w3)
         | SSH_AUTH_ERROR \<Rightarrow>
             Inr (reconnect_ssh_client c (Some (''Auth error: '' @ ssh_get_error_r lib)) w3)
         | SSH_AUTH_SUCCESS \<Rightarrow>
             on_open_channel lib c
               (upd_client c (\<lambda>cl. cl\<lparr>state := SSH_OPEN_CHANNEL\<rparr>)
                  (emit (Debug ''Auth successful'') w3)))"

text \<open>The fingerprint the server's hash is compared with: the switch on the key type.\<close>

definition server_hash_str :: "options \<Rightarrow> ssh_keytypes \<Rightarrow> string" where
  "server_hash_str opts key_type =
     (case key_type of
        SSH_KEYTYPE_RSA \<Rightarrow> tmate_server_rsa_fingerprint opts
      | SSH_KEYTYPE_ECDSA \<Rightarrow> tmate_server_ecdsa_fingerprint opts
      | _ \<Rightarrow> [])"

definition cannot_authenticate :: string where
  "cannot_authenticate = ''Cannot authenticate server''"

definition on_auth_server :: "options \<Rightarrow> ssh_lib \<Rightarrow> client_id \<Rightarrow> tmate_session \<Rightarrow> error + tmate_session" where
  "on_auth_server opts lib c w =
     (if \<not> ssh_get_publickey_r lib then Inl (Fatal ''ssh_get_publickey'')
      else if \<not> ssh_get_publickey_hash_r lib
      then Inr (kill_ssh_client c (Some cannot_authenticate) w)
      else case ssh_get_hexa_r lib of
             None \<Rightarrow> Inl (Fatal ''malloc failed'')
           | Some hash_str \<Rightarrow>
               (let match = (hash_str = server_hash_str opts (ssh_key_type_r lib))
                in if \<not> match then Inr (kill_ssh_client c (Some cannot_authenticate) w)
                   else case on_ssh_auth_server_complete c
                               (emit (Debug (''Connected to '' @ server_ip (heap w c))) w) of
                          Inl e \<Rightarrow> Inl e
                        | Inr w1 \<Rightarrow>
                            on_auth_client lib c
                              (upd_client c (\<lambda>cl. cl\<lparr>state := SSH_AUTH_CLIENT\<rparr>) w1)))"

definition on_connect :: "options \<Rightarrow> ssh_lib \<Rightarrow> client_id \<Rightarrow> tmate_session \<Rightarrow> error + tmate_session" where
  "on_connect opts lib c w =
     (case ssh_connect_r lib of
        SSH_AGAIN \<Rightarrow> Inr (register_session_fd_event c w)
      | SSH_ERROR \<Rightarrow>
          Inr (reconnect_ssh_client c (Some (''Error connecting: '' @ ssh_get_error_r lib)) w)
      | SSH_OK \<Rightarrow>
          (let w1 = register_session_fd_event c w;
               w2 = emit (Debug (''Establishing connection to '' @ server_ip (heap w1 c))) w1
           in on_auth_server opts lib c (upd_client c (\<lambda>cl. cl\<lparr>state := SSH_AUTH_SERVER\<rparr>) w2))
      | SSH_EOF \<Rightarrow> on_auth_server opts lib c w)"

definition on_init :: "options \<Rightarrow> ssh_lib \<Rightarrow> client_id \<Rightarrow> tmate_session \<Rightarrow> error + tmate_session" where
  "on_init opts lib c w =
     (if \<not> ssh_new_r lib then Inl (Fatal ''cannot initialize'')
      else if \<not> ssh_channel_new_r lib then Inl (Fatal ''cannot initialize'')
      else
        (let w1 = upd_client c (\<lambda>cl. cl\<lparr>session := True, channel := True\<rparr>) w;
             w2 = (case get_identity (tmate_identity opts) of
                     Some identity \<Rightarrow> emit (OptionsSetIdentity c identity) w1
                   | None \<Rightarrow> w1)
         in on_connect opts lib c (upd_client c (\<lambda>cl. cl\<lparr>state := SSH_CONNECT\<rparr>) w2)))"

definition on_ssh_client_event :: "options \<Rightarrow> ssh_lib \<Rightarrow> client_id \<Rightarrow> tmate_session \<Rightarrow> error + tmate_session" where
  "on_ssh_client_event opts lib c w =
     (case state (heap w c) of
        SSH_INIT \<Rightarrow> on_init opts lib c w
      | SSH_CONNECT \<Rightarrow> on_connect opts lib c w
      | SSH_AUTH_SERVER \<Rightarrow> on_auth_server opts lib c w
      | SSH_AUTH_CLIENT \<Rightarrow> on_auth_client lib c w
      | SSH_OPEN_CHANNEL \<Rightarrow> on_open_channel lib c w
      | SSH_BOOTSTRAP \<Rightarrow> on_bootstrap lib c w
      | SSH_READY \<Rightarrow> on_ready lib c w
      | SSH_NONE \<Rightarrow> Inr w)"

definition on_passphrase_read :: "options \<Rightarrow> ssh_lib \<Rightarrow> string \<Rightarrow> client_id \<Rightarrow> tmate_session \<Rightarrow> error + tmate_session" where
  "on_passphrase_read opts lib p c w = on_ssh_client_event opts lib c (w\<lparr>passphrase := Some p\<rparr>)"

definition connect_ssh_client :: "options \<Rightarrow> ssh_lib \<Rightarrow> client_id \<Rightarrow> tmate_session \<Rightarrow> error + tmate_session" where
  "connect_ssh_client opts lib c w =
     (if \<not> session (heap w c)
      then on_ssh_client_event opts lib c (upd_client c (\<lambda>cl. cl\<lparr>state := SSH_INIT\<rparr>) w)
      else Inr w)"

text \<open>
  \<^verbatim>\<open>tmate_ssh_client_alloc\<close>. \<open>mem\<close> is what \<^verbatim>\<open>xmalloc\<close> returns: the fields the function does
  not assign keep the values of \<open>mem\<close>. The new client's pointer is \<open>next_client w\<close>, an
  address that was not handed out before; the C function returns it, the model returns the
  session.
\<close>

definition tmate_ssh_client_alloc :: "options \<Rightarrow> ssh_lib \<Rightarrow> tmate_ssh_client \<Rightarrow> string \<Rightarrow> tmate_session \<Rightarrow> error + tmate_session" where
  "tmate_ssh_client_alloc opts lib mem ip w =
     (let client = next_client w;
          w1 = w\<lparr>clients := clients w @ [client], next_client := Suc client\<rparr>;
          w2 = w1\<lparr>heap := (heap w1)(client :=
                  mem\<lparr>server_ip := ip, state := SSH_NONE, session := False, channel := False,
                      has_encoder := False,
                      ev_ssh_reconnect := \<lparr>ev_initialized = True, ev_pending = False\<rparr>,
                      freed := False\<rparr>)\<rparr>
      in connect_ssh_client opts lib client w2)"

subsection \<open>Runs\<close>

text \<open>
  What can happen to a session: a readiness event of a client's socket
  (\<^verbatim>\<open>__on_ssh_client_event\<close>), a passphrase typed at the prompt (\<open>on_passphrase_read\<close>), and the
  allocation of another client. A run stops at the first fatal error or failed assertion.
\<close>

datatype input =
    Readiness client_id ssh_lib
  | PassphraseRead string client_id ssh_lib
  | Alloc tmate_ssh_client string ssh_lib

fun is_alloc :: "input \<Rightarrow> bool" where
  "is_alloc (Alloc mem ip lib) = True"
| "is_alloc _ = False"

fun step :: "options \<Rightarrow> input \<Rightarrow> tmate_session \<Rightarrow> error + tmate_session" where
  "step opts (Readiness c lib) w = on_ssh_client_event opts lib c w"
| "step opts (PassphraseRead p c lib) w = on_passphrase_read opts lib p c w"
| "step opts (Alloc mem ip lib) w = tmate_ssh_client_alloc opts lib mem ip w"

fun run :: "options \<Rightarrow> input list \<Rightarrow> tmate_session \<Rightarrow> error + tmate_session" where
  "run opts [] w = Inr w"
| "run opts (i # is) w = (case step opts i w of Inl e \<Rightarrow> Inl e | Inr w1 \<Rightarrow> run opts is w1)"

definition null_client :: tmate_ssh_client where
  "null_client = \<lparr>state = SSH_NONE, server_ip = [], session = False, channel = False,
     has_encoder = False, tried_passphrase = None,
     ev_ssh = \<lparr>ev_initialized = False, ev_pending = False\<rparr>,
     ev_ssh_reconnect = \<lparr>ev_initialized = False, ev_pending = False\<rparr>, freed = False\<rparr>"

text \<open>A session before any client is allocated.\<close>

definition new_session :: tmate_session where
  "new_session = \<lparr>clients = [], need_passphrase = False, passphrase = None,
     encoder = None, decoder = None, heap = (\<lambda>c. null_client), next_client = 0,
     pane = NoMode, trace = []\<rparr>"

subsection \<open>Observations\<close>

text \<open>The messages shown to the user, and those logged at debug level, in a list of effects.\<close>

fun status_messages :: "effect list \<Rightarrow> string list" where
  "status_messages [] = []"
| "status_messages (StatusMessage m # es) = m # status_messages es"
| "status_messages (e # es) = status_messages es"

fun debug_messages :: "effect list \<Rightarrow> string list" where
  "debug_messages [] = []"
| "debug_messages (Debug m # es) = m # debug_messages es"
| "debug_messages (e # es) = debug_messages es"

text \<open>The effects that were appended to the trace between the sessions \<open>w\<close> and \<open>w'\<close>.\<close>

definition since :: "tmate_session \<Rightarrow> tmate_session \<Rightarrow> effect list" where
  "since w w' = drop (length (trace w)) (trace w')"

text \<open>The three return codes of the authentication that the switch treats alike.\<close>

definition denied :: "ssh_auth_rc \<Rightarrow> bool" where
  "denied rc \<longleftrightarrow> rc = SSH_AUTH_PARTIAL \<or> rc = SSH_AUTH_INFO \<or> rc = SSH_AUTH_DENIED"

text \<open>
  The session as it is when \<^verbatim>\<open>ssh_userauth_autopubkey\<close> has returned: the tried passphrase
  is stored, the call is in the trace, and \<open>need_passphrase\<close> is set if the callback ran.
\<close>

definition attempt :: "ssh_lib \<Rightarrow> client_id \<Rightarrow> tmate_session \<Rightarrow> tmate_session" where
  "attempt lib c w =
     (let w2 = emit (Userauth c (passphrase w))
                 (upd_client c (\<lambda>cl. cl\<lparr>tried_passphrase := passphrase w\<rparr>) w)
      in if auth_function_called lib then w2\<lparr>need_passphrase := True\<rparr> else w2)"

text \<open>
  \<open>keeps w w'\<close>: the trace of \<open>w'\<close> extends that of \<open>w\<close>, and the cached and the tried
  passphrases are the same.
\<close>

definition keeps :: "tmate_session \<Rightarrow> tmate_session \<Rightarrow> bool" where
  "keeps w w' \<longleftrightarrow>
     (\<exists>es. trace w' = trace w @ es) \<and> passphrase w' = passphrase w \<and>
     (\<forall>c. tried_passphrase (heap w' c) = tried_passphrase (heap w c))"

subsection \<open>Example sessions\<close>

definition ex_opts :: options where
  "ex_opts = \<lparr>tmate_identity = ''id_rsa'',
     tmate_server_rsa_fingerprint = ''af:2d:81:c1:fe:49:70:2d:7f:09:a9:d7:4b:32:e3:be'',
     tmate_server_ecdsa_fingerprint = ''c7:a1:51:36:d2:bb:35:4b:0a:1a:c0:43:97:74:ea:42'',
     tmate_server_port = 22\<rparr>"

text \<open>Every library call succeeds at once; the server shows the configured RSA key.\<close>

definition lib_ok :: ssh_lib where
  "lib_ok = \<lparr>ssh_new_r = True, ssh_channel_new_r = True, ssh_connect_r = SSH_OK,
     ssh_get_publickey_r = True, ssh_get_publickey_hash_r = True,
     ssh_get_hexa_r = Some ''af:2d:81:c1:fe:49:70:2d:7f:09:a9:d7:4b:32:e3:be'',
     ssh_key_type_r = SSH_KEYTYPE_RSA, ssh_userauth_autopubkey_r = SSH_AUTH_SUCCESS,
     auth_function_called = False, auth_function_len = 128,
     ssh_channel_open_session_r = SSH_OK,
     ssh_channel_request_subsystem_r = SSH_OK, ssh_channel_read_nonblocking_r = [],
     ssh_is_connected_r = True, ssh_get_error_r = ''Socket error''\<rparr>"

text \<open>The connection is still in progress.\<close>

definition lib_again :: ssh_lib where
  "lib_again = lib_ok\<lparr>ssh_connect_r := SSH_AGAIN\<rparr>"

definition the_session :: "error + tmate_session \<Rightarrow> tmate_session" where
  "the_session r = (case r of Inr w \<Rightarrow> w | Inl e \<Rightarrow> new_session)"

text \<open>Two clients that wait for their connections.\<close>

definition two_clients :: tmate_session where
  "two_clients = the_session (run ex_opts
     [Alloc null_client ''10.0.0.1'' lib_again, Alloc null_client ''10.0.0.2'' lib_again]
     new_session)"

text \<open>The session \<open>on_connect\<close> hands to the case \<^verbatim>\<open>SSH_AUTH_SERVER\<close> for the first of them.\<close>

definition in_auth_server :: tmate_session where
  "in_auth_server = upd_client 0 (\<lambda>cl. cl\<lparr>state := SSH_AUTH_SERVER\<rparr>) two_clients"

text \<open>
  One client whose authentication is in progress, without and with a call of the
  passphrase callback so far.
\<close>

definition waiting :: tmate_session where
  "waiting = the_session (run ex_opts
     [Alloc null_client ''10.0.0.1'' lib_again,
      Readiness 0 (lib_ok\<lparr>ssh_userauth_autopubkey_r := SSH_AUTH_AGAIN\<rparr>)]
     new_session)"

definition asked :: tmate_session where
  "asked = the_session (run ex_opts
     [Alloc null_client ''10.0.0.1'' lib_again,
      Readiness 0 (lib_ok\<lparr>ssh_userauth_autopubkey_r := SSH_AUTH_AGAIN,
                          auth_function_called := True\<rparr>)]
     new_session)"

text \<open>The same client after a first passphrase was typed and the attempt is again in progress.\<close>

definition typed :: tmate_session where
  "typed = the_session (run ex_opts
     [Readiness 0 (lib_ok\<lparr>ssh_userauth_autopubkey_r := SSH_AUTH_DENIED\<rparr>),
      PassphraseRead ''secret'' 0 (lib_ok\<lparr>ssh_userauth_autopubkey_r := SSH_AUTH_AGAIN\<rparr>)]
     asked)"

subsection \<open>Invariants of runs\<close>

text \<open>
  \<open>frame c w w'\<close>: from \<open>w\<close> to \<open>w'\<close> no client's flag \<open>has_encoder\<close> changes, and the state
  of a client other than \<open>c\<close> is the same or has become \<open>SSH_NONE\<close>.
\<close>

definition frame :: "client_id \<Rightarrow> tmate_session \<Rightarrow> tmate_session \<Rightarrow> bool" where
  "frame c w w' \<longleftrightarrow>
     (\<forall>x. has_encoder (heap w' x) = has_encoder (heap w x)) \<and>
     (\<forall>x. x \<noteq> c \<longrightarrow> state (heap w' x) = state (heap w x) \<or> state (heap w' x) = SSH_NONE)"

text \<open>No client has the flag \<open>has_encoder\<close>.\<close>

definition no_encoder :: "tmate_session \<Rightarrow> bool" where
  "no_encoder w \<longleftrightarrow> (\<forall>x. \<not> has_encoder (heap w x))"

text \<open>The session in which \<open>tmate_ssh_client_alloc\<close> calls \<open>on_ssh_client_event\<close>.\<close>

definition allocated :: "tmate_ssh_client \<Rightarrow> string \<Rightarrow> tmate_session \<Rightarrow> tmate_session" where
  "allocated mem ip w =
     w\<lparr>clients := clients w @ [next_client w], next_client := Suc (next_client w),
       heap := (heap w)(next_client w :=
          mem\<lparr>server_ip := ip, session := False, channel := False,
              has_encoder := False,
              ev_ssh_reconnect := \<lparr>ev_initialized = True, ev_pending = False\<rparr>,
              freed := False, state := SSH_INIT\<rparr>)\<rparr>"

text \<open>The states after the authentication of the server.\<close>

definition past_auth :: "ssh_state \<Rightarrow> bool" where
  "past_auth s \<longleftrightarrow>
     s = SSH_AUTH_CLIENT \<or> s = SSH_OPEN_CHANNEL \<or> s = SSH_BOOTSTRAP \<or> s = SSH_READY"

text \<open>A client that is ready and to which the encoder and the decoder are wired.\<close>

definition ready_with_bridge :: "tmate_session \<Rightarrow> client_id \<Rightarrow> bool" where
  "ready_with_bridge w c \<longleftrightarrow>
     state (heap w c) = SSH_READY \<and> encoder w = Some c \<and> decoder w = Some c"

text \<open>
  A session in which the race is in order: a client is in the queue at most once, a client
  whose state is not \<open>SSH_NONE\<close> is in the queue, and when a client is past the authentication
  of the server every other client's state is \<open>SSH_NONE\<close>.
\<close>

definition race_inv :: "tmate_session \<Rightarrow> bool" where
  "race_inv w \<longleftrightarrow>
     distinct (clients w) \<and>
     (\<forall>c. state (heap w c) \<noteq> SSH_NONE \<longrightarrow> c \<in> set (clients w)) \<and>
     (\<forall>c c'. past_auth (state (heap w c)) \<and> state (heap w c') \<noteq> SSH_NONE \<longrightarrow> c' = c)"

text \<open>Inputs among which no client is allocated.\<close>

definition readiness_only :: "input list \<Rightarrow> bool" where
  "readiness_only inputs = list_all (\<lambda>i. \<not> is_alloc i) inputs"

text \<open>States that are \<open>SSH_NONE\<close> in \<open>w\<close> are \<open>SSH_NONE\<close> in \<open>w'\<close>.\<close>

definition none_stays :: "tmate_session \<Rightarrow> tmate_session \<Rightarrow> bool" where
  "none_stays w w' \<longleftrightarrow> (\<forall>x. state (heap w x) = SSH_NONE \<longrightarrow> state (heap w' x) = SSH_NONE)"

text \<open>
  An allocation during which the connection does not complete: \<^verbatim>\<open>ssh_connect\<close> answers
  that it is in progress, or that it failed.
\<close>

fun connecting :: "input \<Rightarrow> bool" where
  "connecting (Alloc mem ip lib) =
     (ssh_connect_r lib = SSH_AGAIN \<or> ssh_connect_r lib = SSH_ERROR)"
| "connecting _ = False"

text \<open>
  A session in which no client is past the authentication of the server yet, and whose
  clients were allocated before \<open>next_client\<close>.
\<close>

definition race_open :: "tmate_session \<Rightarrow> bool" where
  "race_open w \<longleftrightarrow>
     distinct (clients w) \<and>
     (\<forall>c. state (heap w c) \<noteq> SSH_NONE \<longrightarrow> c \<in> set (clients w)) \<and>
     (\<forall>c. \<not> past_auth (state (heap w c))) \<and>
     (\<forall>c\<in>set (clients w). c < next_client w)"

text \<open>
  A client is allocated and becomes ready; then a second one is allocated, in memory whose
  \<open>has_encoder\<close> byte is set, and waits for its connection.
\<close>

definition late_comer :: tmate_session where
  "late_comer = the_session (run ex_opts
     [Alloc null_client ''10.0.0.1'' lib_again,
      Readiness 0 lib_ok,
      Alloc (null_client\<lparr>has_encoder := True\<rparr>) ''10.0.0.2'' lib_again]
     new_session)"

section \<open>Properties\<close>

subsection \<open>Teardown\<close>

lemma status_messages_append [simp]:
  "status_messages (xs @ ys) = status_messages xs @ status_messages ys"
  by (induction xs rule: status_messages.induct) auto

lemma debug_messages_append [simp]:
  "debug_messages (xs @ ys) = debug_messages xs @ debug_messages ys"
  by (induction xs rule: debug_messages.induct) auto

lemmas teardown_defs =
  kill_ssh_client_def reconnect_ssh_client_def do_kill_ssh_client_def free_client_def
  tailq_remove_def upd_client_def emit_def

lemma trace_reconnect:
  "trace (reconnect_ssh_client c fmt w) =
     trace w @ [TailqRemove c] @
     [case fmt of
        Some msg \<Rightarrow> if remove1 c (clients w) = [] then StatusMessage msg
                    else Debug (''Disconnecting '' @ server_ip (heap w c))
      | None \<Rightarrow> Debug (''Disconnecting '' @ server_ip (heap w c))] @
     (if ev_initialized (ev_ssh (heap w c)) then [EventDel c] else []) @
     (if session (heap w c) then [SshFree c] else [])"
  by (simp add: teardown_defs Let_def split: option.splits)

lemma trace_kill:
  "trace (kill_ssh_client c fmt w) = trace (reconnect_ssh_client c fmt w) @ [Free c]"
  by (simp add: teardown_defs Let_def split: option.splits)

lemma clients_reconnect [simp]:
  "clients (reconnect_ssh_client c fmt w) = remove1 c (clients w)"
  by (simp add: teardown_defs Let_def split: option.splits)

lemma clients_kill [simp]:
  "clients (kill_ssh_client c fmt w) = remove1 c (clients w)"
  by (simp add: teardown_defs Let_def split: option.splits)

lemma status_messages_kill:
  "status_messages (since w (kill_ssh_client c (Some msg) w)) =
     (if remove1 c (clients w) = [] then [msg] else [])"
  by (simp add: since_def trace_kill trace_reconnect)

text \<open>
  Claim C7. \<open>kill_ssh_client\<close> and \<open>reconnect_ssh_client\<close> first take the client out of the
  queue. Called with a message, they show it to the user exactly when the queue without the
  client, \<open>remove1 c (clients w)\<close>, is empty, and then nothing is logged at debug level; when
  other clients remain, or when no message is given, the only output is the debug line
  \<open>Disconnecting <ip>\<close>. The removal is the first effect and the message or debug line the
  second.
\<close>

theorem message_policy:
  "clients (kill_ssh_client c fmt w) = remove1 c (clients w) \<and>
   clients (reconnect_ssh_client c fmt w) = remove1 c (clients w) \<and>
   status_messages (since w (kill_ssh_client c (Some msg) w)) =
     (if remove1 c (clients w) = [] then [msg] else []) \<and>
   debug_messages (since w (kill_ssh_client c (Some msg) w)) =
     (if remove1 c (clients w) = [] then []
      else [''Disconnecting '' @ server_ip (heap w c)]) \<and>
   status_messages (since w (reconnect_ssh_client c (Some msg) w)) =
     (if remove1 c (clients w) = [] then [msg] else []) \<and>
   debug_messages (since w (reconnect_ssh_client c (Some msg) w)) =
     (if remove1 c (clients w) = [] then []
      else [''Disconnecting '' @ server_ip (heap w c)]) \<and>
   status_messages (since w (kill_ssh_client c None w)) = [] \<and>
   debug_messages (since w (kill_ssh_client c None w)) =
     [''Disconnecting '' @ server_ip (heap w c)] \<and>
   status_messages (since w (reconnect_ssh_client c None w)) = [] \<and>
   debug_messages (since w (reconnect_ssh_client c None w)) =
     [''Disconnecting '' @ server_ip (heap w c)] \<and>
   take 2 (since w (kill_ssh_client c (Some msg) w)) =
     [TailqRemove c,
      if remove1 c (clients w) = [] then StatusMessage msg
      else Debug (''Disconnecting '' @ server_ip (heap w c))] \<and>
   take 2 (since w (reconnect_ssh_client c (Some msg) w)) =
     [TailqRemove c,
      if remove1 c (clients w) = [] then StatusMessage msg
      else Debug (''Disconnecting '' @ server_ip (heap w c))]"
  by (simp add: since_def trace_kill trace_reconnect)

subsection \<open>The identity file\<close>

text \<open>
  Claim C9. A configured identity that is not empty is used as it is when it contains a
  slash, and is put after \<open>%d/\<close> otherwise.
\<close>

theorem get_identity_path:
  assumes "identity \<noteq> []"
  shows "get_identity identity =
           Some (if CHR ''/'' \<in> set identity then identity else ''%d/'' @ identity)"
  using assms by (simp add: get_identity_def)

theorem get_identity_path_witness:
  "''id_rsa'' \<noteq> [] \<and> get_identity ''id_rsa'' = Some ''%d/id_rsa'' \<and>
   ''/home/u/.ssh/id_rsa'' \<noteq> [] \<and>
   get_identity ''/home/u/.ssh/id_rsa'' = Some ''/home/u/.ssh/id_rsa''"
  using get_identity_path [of "''id_rsa''"] get_identity_path [of "''/home/u/.ssh/id_rsa''"]
  by simp

lemmas machine_defs =
  on_ssh_client_event_def on_init_def on_connect_def on_auth_server_def on_auth_client_def
  on_open_channel_def on_bootstrap_def on_ready_def auth_denied_def
  on_ssh_auth_server_complete_def register_session_fd_event_def request_passphrase_def
  passphrase_callback_def connect_ssh_client_def tmate_ssh_client_alloc_def
  on_passphrase_read_def server_hash_str_def get_identity_def

lemmas example_defs =
  ex_opts_def lib_ok_def lib_again_def the_session_def two_clients_def new_session_def
  null_client_def in_auth_server_def waiting_def asked_def typed_def late_comer_def

lemma heap_reconnect_other: "c' \<noteq> c \<Longrightarrow> heap (reconnect_ssh_client c fmt w) c' = heap w c'"
  by (simp add: teardown_defs Let_def split: option.splits)

lemma heap_kill_other: "c' \<noteq> c \<Longrightarrow> heap (kill_ssh_client c fmt w) c' = heap w c'"
  by (simp add: teardown_defs Let_def split: option.splits)

lemma heap_reconnect_self:
  "heap (reconnect_ssh_client c fmt w) c =
     (heap w c)\<lparr>state := SSH_NONE,
       session := False,
       channel := (channel (heap w c) \<and> \<not> session (heap w c)),
       ev_ssh := (ev_ssh (heap w c))\<lparr>ev_pending :=
          (ev_pending (ev_ssh (heap w c)) \<and> \<not> ev_initialized (ev_ssh (heap w c)))\<rparr>\<rparr>"
  by (simp add: teardown_defs Let_def split: option.splits)

lemma kill_is_reconnect_then_free:
  "kill_ssh_client c fmt w = free_client c (reconnect_ssh_client c fmt w)"
  by (simp add: kill_ssh_client_def reconnect_ssh_client_def)

lemma heap_kill_self:
  "heap (kill_ssh_client c fmt w) c = (heap (reconnect_ssh_client c fmt w) c)\<lparr>freed := True\<rparr>"
  by (simp add: kill_is_reconnect_then_free free_client_def upd_client_def emit_def)

lemma session_fields_reconnect:
  "need_passphrase (reconnect_ssh_client c fmt w) = need_passphrase w \<and>
   passphrase (reconnect_ssh_client c fmt w) = passphrase w \<and>
   encoder (reconnect_ssh_client c fmt w) = encoder w \<and>
   decoder (reconnect_ssh_client c fmt w) = decoder w \<and>
   pane (reconnect_ssh_client c fmt w) = pane w \<and>
   next_client (reconnect_ssh_client c fmt w) = next_client w"
  by (simp add: teardown_defs Let_def split: option.splits)

lemma session_fields_kill:
  "need_passphrase (kill_ssh_client c fmt w) = need_passphrase w \<and>
   passphrase (kill_ssh_client c fmt w) = passphrase w \<and>
   encoder (kill_ssh_client c fmt w) = encoder w \<and>
   decoder (kill_ssh_client c fmt w) = decoder w \<and>
   pane (kill_ssh_client c fmt w) = pane w \<and>
   next_client (kill_ssh_client c fmt w) = next_client w"
  by (simp add: teardown_defs Let_def split: option.splits)

lemma kill_terminal:
  "clients (kill_ssh_client c fmt w) = remove1 c (clients w) \<and>
   state (heap (kill_ssh_client c fmt w) c) = SSH_NONE \<and>
   \<not> session (heap (kill_ssh_client c fmt w) c) \<and>
   freed (heap (kill_ssh_client c fmt w) c) \<and>
   ev_ssh_reconnect (heap (kill_ssh_client c fmt w) c) = ev_ssh_reconnect (heap w c)"
  by (simp add: heap_kill_self heap_reconnect_self)

text \<open>
  Claim C8. \<open>kill_ssh_client\<close> is \<open>reconnect_ssh_client\<close> followed by the release of the
  client itself. Both take the client out of the queue, delete the readiness event when it was
  assigned, free the ssh session (and with it the channel) when there is one, clear both
  handles and set the state to \<open>SSH_NONE\<close>; the effects of \<open>kill_ssh_client\<close> are those of
  \<open>reconnect_ssh_client\<close> and then \<open>Free\<close>. Neither touches the reconnect timer, so no retry
  is scheduled.
\<close>

theorem kill_reconnect_same_teardown:
  "kill_ssh_client c fmt w = free_client c (reconnect_ssh_client c fmt w) \<and>
   clients (reconnect_ssh_client c fmt w) = remove1 c (clients w) \<and>
   clients (kill_ssh_client c fmt w) = remove1 c (clients w) \<and>
   heap (reconnect_ssh_client c fmt w) c =
     (heap w c)\<lparr>state := SSH_NONE,
       session := False,
       channel := (channel (heap w c) \<and> \<not> session (heap w c)),
       ev_ssh := (ev_ssh (heap w c))\<lparr>ev_pending :=
          (ev_pending (ev_ssh (heap w c)) \<and> \<not> ev_initialized (ev_ssh (heap w c)))\<rparr>\<rparr> \<and>
   heap (kill_ssh_client c fmt w) c = (heap (reconnect_ssh_client c fmt w) c)\<lparr>freed := True\<rparr> \<and>
   since w (kill_ssh_client c fmt w) = since w (reconnect_ssh_client c fmt w) @ [Free c] \<and>
   Free c \<notin> set (since w (reconnect_ssh_client c fmt w)) \<and>
   (SshFree c \<in> set (since w (reconnect_ssh_client c fmt w))) = session (heap w c) \<and>
   (EventDel c \<in> set (since w (reconnect_ssh_client c fmt w))) =
     ev_initialized (ev_ssh (heap w c)) \<and>
   ev_ssh_reconnect (heap (reconnect_ssh_client c fmt w) c) = ev_ssh_reconnect (heap w c) \<and>
   ev_ssh_reconnect (heap (kill_ssh_client c fmt w) c) = ev_ssh_reconnect (heap w c)"
  by (simp add: kill_is_reconnect_then_free [symmetric] heap_reconnect_self heap_kill_self
      since_def trace_kill trace_reconnect split: option.splits)

text \<open>
  Claim C2 fails on the code. One client is allocated, connects and becomes ready. At the next
  readiness event the read of the channel returns an error and the session is no longer
  connected. \<open>read_channel\<close> tears the client down through \<open>reconnect_ssh_client\<close> and returns;
  the case \<^verbatim>\<open>SSH_READY\<close> then finds the session disconnected and calls
  \<open>reconnect_ssh_client\<close> again. The client is removed from the queue twice and two messages
  are shown to the user in the one invocation; the ssh session is freed once.
\<close>

theorem read_error_tears_down_twice:
  "(case run ex_opts
      [Alloc null_client ''10.0.0.1'' lib_again,
       Readiness 0 lib_ok,
       Readiness 0 (lib_ok\<lparr>ssh_channel_read_nonblocking_r := [-1],
                           ssh_is_connected_r := False\<rparr>)]
      new_session of
    Inr w \<Rightarrow>
      count_list (trace w) (TailqRemove 0) = 2 \<and>
      count_list (trace w) (SshFree 0) = 1 \<and>
      status_messages (trace w) =
        [''Error reading from channel: Socket error'', ''Disconnected'']
  | Inl e \<Rightarrow> False)"
  by (simp add: machine_defs example_defs teardown_defs Let_def)

subsection \<open>The authentication stages\<close>

lemma keeps_refl [simp]: "keeps w w"
  by (simp add: keeps_def)

lemma keeps_trans: "keeps w w1 \<Longrightarrow> keeps w1 w2 \<Longrightarrow> keeps w w2"
  by (auto simp: keeps_def)

lemma keeps_reconnect [simp]: "keeps w (reconnect_ssh_client c fmt w)"
  by (simp add: keeps_def teardown_defs Let_def split: option.splits)

lemma keeps_kill [simp]: "keeps w (kill_ssh_client c fmt w)"
  by (simp add: keeps_def teardown_defs Let_def split: option.splits)

lemma keeps_emit [simp]: "keeps w (emit e w)"
  by (simp add: keeps_def emit_def)

lemma keeps_read_channel [simp]: "keeps w (read_channel c err lens w)"
proof (induction lens arbitrary: w)
  case Nil
  show ?case by simp
next
  case (Cons len rest)
  have "keeps w (read_channel c err rest (emit (DecoderCommit len) w))"
    using keeps_trans [OF keeps_emit Cons.IH] .
  then show ?case by simp
qed

lemma on_ready_keeps: "\<exists>w'. on_ready lib c w = Inr w' \<and> keeps w w'"
  unfolding on_ready_def Let_def
  by (auto intro: keeps_trans [OF keeps_read_channel keeps_reconnect])

lemma keeps_state_upd [simp]:
  "keeps w (upd_client c (\<lambda>cl. cl\<lparr>state := s\<rparr>) w)"
  by (simp add: keeps_def upd_client_def)

lemma keeps_bridge [simp]: "keeps w (w\<lparr>encoder := e, decoder := d\<rparr>)"
  by (simp add: keeps_def)

lemma on_bootstrap_keeps: "\<exists>w'. on_bootstrap lib c w = Inr w' \<and> keeps w w'"
proof (cases "ssh_channel_request_subsystem_r lib")
  case SSH_OK
  let ?w1 = "(upd_client c (\<lambda>cl. cl\<lparr>state := SSH_READY\<rparr>) (emit (Debug ''Ready'') w))
               \<lparr>encoder := Some c, decoder := Some c\<rparr>"
  have k: "keeps w ?w1"
    by (rule keeps_trans [OF keeps_emit]) (rule keeps_trans [OF keeps_state_upd keeps_bridge])
  obtain w' where "on_ready lib c ?w1 = Inr w'" "keeps ?w1 w'"
    using on_ready_keeps by blast
  with k SSH_OK show ?thesis
    by (auto simp: on_bootstrap_def intro: keeps_trans)
next
  case SSH_EOF
  then show ?thesis using on_ready_keeps [of lib c w] by (simp add: on_bootstrap_def)
qed (simp_all add: on_bootstrap_def)

lemma on_open_channel_keeps: "\<exists>w'. on_open_channel lib c w = Inr w' \<and> keeps w w'"
proof (cases "ssh_channel_open_session_r lib")
  case SSH_OK
  let ?w1 = "upd_client c (\<lambda>cl. cl\<lparr>state := SSH_BOOTSTRAP\<rparr>)
               (emit (Debug ''Session opened, initalizing tmate'') w)"
  have k: "keeps w ?w1"
    by (rule keeps_trans [OF keeps_emit keeps_state_upd])
  obtain w' where "on_bootstrap lib c ?w1 = Inr w'" "keeps ?w1 w'"
    using on_bootstrap_keeps by blast
  with k SSH_OK show ?thesis
    by (auto simp: on_open_channel_def intro: keeps_trans)
next
  case SSH_EOF
  then show ?thesis using on_bootstrap_keeps [of lib c w] by (simp add: on_open_channel_def)
qed (simp_all add: on_open_channel_def)

lemma on_auth_client_attempt:
  "on_auth_client lib c w =
     (case ssh_userauth_autopubkey_r lib of
        SSH_AUTH_AGAIN \<Rightarrow> Inr (attempt lib c w)
      | SSH_AUTH_PARTIAL \<Rightarrow> Inr (auth_denied c (attempt lib c w))
      | SSH_AUTH_INFO \<Rightarrow> Inr (auth_denied c (attempt lib c w))
      | SSH_AUTH_DENIED \<Rightarrow> Inr (auth_denied c (attempt lib c w))
      | SSH_AUTH_ERROR \<Rightarrow>
          Inr (reconnect_ssh_client c (Some (''Auth error: '' @ ssh_get_error_r lib))
                 (attempt lib c w))
      | SSH_AUTH_SUCCESS \<Rightarrow>
          on_open_channel lib c
            (upd_client c (\<lambda>cl. cl\<lparr>state := SSH_OPEN_CHANNEL\<rparr>)
               (emit (Debug ''Auth successful'') (attempt lib c w))))"
  by (cases "ssh_userauth_autopubkey_r lib")
     (simp_all add: on_auth_client_def attempt_def passphrase_callback_def Let_def
        upd_client_def emit_def)

lemma attempt_facts:
  "trace (attempt lib c w) = trace w @ [Userauth c (passphrase w)] \<and>
   passphrase (attempt lib c w) = passphrase w \<and>
   tried_passphrase (heap (attempt lib c w) c) = passphrase w \<and>
   clients (attempt lib c w) = clients w \<and>
   pane (attempt lib c w) = pane w \<and>
   need_passphrase (attempt lib c w) = (need_passphrase w \<or> auth_function_called lib) \<and>
   heap (attempt lib c w) = (heap w)(c := (heap w c)\<lparr>tried_passphrase := passphrase w\<rparr>)"
  by (simp add: attempt_def Let_def upd_client_def emit_def)

lemma keeps_auth_denied: "keeps w (auth_denied c w)"
  unfolding auth_denied_def Let_def
  by (auto simp: request_passphrase_def keeps_def teardown_defs emit_def Let_def
      split: pane_mode.splits option.splits)

lemma on_auth_client_resumed:
  "\<exists>w'. on_auth_client lib c w = Inr w' \<and> passphrase w' = passphrase w \<and>
     tried_passphrase (heap w' c) = passphrase w \<and>
     take 1 (since w w') = [Userauth c (passphrase w)]"
proof -
  have *: "keeps (attempt lib c w) w' \<Longrightarrow>
      passphrase w' = passphrase w \<and> tried_passphrase (heap w' c) = passphrase w \<and>
      take 1 (since w w') = [Userauth c (passphrase w)]" for w'
    by (auto simp: keeps_def since_def attempt_facts)
  show ?thesis
  proof (cases "ssh_userauth_autopubkey_r lib")
    case SSH_AUTH_SUCCESS
    let ?w1 = "upd_client c (\<lambda>cl. cl\<lparr>state := SSH_OPEN_CHANNEL\<rparr>)
                 (emit (Debug ''Auth successful'') (attempt lib c w))"
    have k: "keeps (attempt lib c w) ?w1"
      by (rule keeps_trans [OF keeps_emit keeps_state_upd])
    obtain w' where w': "on_open_channel lib c ?w1 = Inr w'" "keeps ?w1 w'"
      using on_open_channel_keeps by blast
    have "keeps (attempt lib c w) w'" using k w'(2) by (rule keeps_trans)
    with w'(1) SSH_AUTH_SUCCESS * show ?thesis
      by (simp add: on_auth_client_attempt)
  qed (use * keeps_auth_denied keeps_reconnect keeps_refl in
        \<open>simp_all add: on_auth_client_attempt\<close>)
qed

lemma on_ssh_client_event_auth_server:
  "state (heap w c) = SSH_AUTH_SERVER \<Longrightarrow>
   on_ssh_client_event opts lib c w = on_auth_server opts lib c w"
  by (simp add: on_ssh_client_event_def)

lemma on_ssh_client_event_auth_client:
  "state (heap w c) = SSH_AUTH_CLIENT \<Longrightarrow>
   on_ssh_client_event opts lib c w = on_auth_client lib c w"
  by (simp add: on_ssh_client_event_def)

subsection \<open>Authentication of the server\<close>

text \<open>
  Claim C4 as stated fails: when the server's public key cannot be retrieved the process
  ends with the fatal error \<open>ssh_get_publickey\<close>; the client is not killed and no message
  \<open>Cannot authenticate server\<close> is produced.
\<close>

theorem publickey_failure_is_fatal:
  "run ex_opts
     [Alloc null_client ''10.0.0.1'' lib_again,
      Readiness 0 (lib_ok\<lparr>ssh_get_publickey_r := False\<rparr>)]
     new_session = Inl (Fatal ''ssh_get_publickey'')"
  by (simp add: machine_defs example_defs teardown_defs Let_def)


text \<open>
  Claim C4, amended. In the case \<^verbatim>\<open>SSH_AUTH_SERVER\<close>, a failure to retrieve the public key
  is fatal to the process. When the key is retrieved and its hash cannot be, the client is
  killed with \<open>Cannot authenticate server\<close>: it leaves the queue, its state is \<open>SSH_NONE\<close>,
  its handle is cleared, it is freed, its reconnect timer is left alone, and no other
  client's memory changes.
\<close>

theorem auth_server_retrieval_failure:
  "(state (heap w c) = SSH_AUTH_SERVER \<longrightarrow>
      on_ssh_client_event opts lib c w = on_auth_server opts lib c w) \<and>
   (\<not> ssh_get_publickey_r lib \<longrightarrow>
      on_auth_server opts lib c w = Inl (Fatal ''ssh_get_publickey'')) \<and>
   (ssh_get_publickey_r lib \<and> \<not> ssh_get_publickey_hash_r lib \<longrightarrow>
      on_auth_server opts lib c w =
        Inr (kill_ssh_client c (Some ''Cannot authenticate server'') w) \<and>
      clients (kill_ssh_client c (Some ''Cannot authenticate server'') w) =
        remove1 c (clients w) \<and>
      state (heap (kill_ssh_client c (Some ''Cannot authenticate server'') w) c) = SSH_NONE \<and>
      \<not> session (heap (kill_ssh_client c (Some ''Cannot authenticate server'') w) c) \<and>
      freed (heap (kill_ssh_client c (Some ''Cannot authenticate server'') w) c) \<and>
      ev_ssh_reconnect (heap (kill_ssh_client c (Some ''Cannot authenticate server'') w) c) =
        ev_ssh_reconnect (heap w c) \<and>
      (\<forall>c'. c' \<noteq> c \<longrightarrow>
         heap (kill_ssh_client c (Some ''Cannot authenticate server'') w) c' = heap w c'))"
  by (simp add: on_ssh_client_event_auth_server on_auth_server_def cannot_authenticate_def
      kill_terminal heap_kill_other)


theorem auth_server_retrieval_failure_witness:
  "state (heap in_auth_server 0) = SSH_AUTH_SERVER \<and>
   \<not> ssh_get_publickey_r (lib_ok\<lparr>ssh_get_publickey_r := False\<rparr>) \<and>
   on_ssh_client_event ex_opts (lib_ok\<lparr>ssh_get_publickey_r := False\<rparr>) 0 in_auth_server =
     Inl (Fatal ''ssh_get_publickey'') \<and>
   ssh_get_publickey_r (lib_ok\<lparr>ssh_get_publickey_hash_r := False\<rparr>) \<and>
   \<not> ssh_get_publickey_hash_r (lib_ok\<lparr>ssh_get_publickey_hash_r := False\<rparr>) \<and>
   on_ssh_client_event ex_opts (lib_ok\<lparr>ssh_get_publickey_hash_r := False\<rparr>) 0 in_auth_server =
     Inr (kill_ssh_client 0 (Some ''Cannot authenticate server'') in_auth_server) \<and>
   clients (kill_ssh_client 0 (Some ''Cannot authenticate server'') in_auth_server) = [1] \<and>
   heap (kill_ssh_client 0 (Some ''Cannot authenticate server'') in_auth_server) 1 =
     heap in_auth_server 1"
  using auth_server_retrieval_failure
          [of in_auth_server 0 ex_opts "lib_ok\<lparr>ssh_get_publickey_r := False\<rparr>"]
        auth_server_retrieval_failure
          [of in_auth_server 0 ex_opts "lib_ok\<lparr>ssh_get_publickey_hash_r := False\<rparr>"]
  by (simp add: machine_defs example_defs teardown_defs Let_def)






subsection \<open>Authentication of the client\<close>

lemma on_auth_client_denied:
  "denied (ssh_userauth_autopubkey_r lib) \<Longrightarrow>
   on_auth_client lib c w = Inr (auth_denied c (attempt lib c w))"
  by (auto simp: denied_def on_auth_client_attempt)

lemma auth_denied_prompt:
  assumes "need_passphrase w"
  shows "clients (auth_denied c w) = clients w \<and>
     heap (auth_denied c w) = heap w \<and>
     pane (auth_denied c w) =
       (case pane w of PasswordMode other \<Rightarrow> PasswordMode other | _ \<Rightarrow> PasswordMode c) \<and>
     passphrase (auth_denied c w) = passphrase w \<and>
     trace (auth_denied c w) =
       trace w @ (if tried_passphrase (heap w c) = None then [] else [StatusMessage retry_hint])"
  using assms
  by (cases "pane w") (simp_all add: auth_denied_def request_passphrase_def emit_def Let_def)

lemma auth_denied_kill:
  assumes "\<not> need_passphrase w"
  shows "clients (auth_denied c w) = remove1 c (clients w) \<and>
     state (heap (auth_denied c w) c) = SSH_NONE \<and>
     freed (heap (auth_denied c w) c) \<and>
     \<not> session (heap (auth_denied c w) c) \<and>
     pane (auth_denied c w) = pane w \<and>
     trace (auth_denied c w) =
       trace (kill_ssh_client c (Some keys_not_found) w) @
       (if tried_passphrase (heap w c) = None then [] else [StatusMessage retry_hint])"
  using assms
  by (simp add: auth_denied_def emit_def Let_def kill_terminal session_fields_kill
      heap_kill_self heap_reconnect_self)


text \<open>
  Claim C5. A client in \<open>SSH_AUTH_CLIENT\<close> whose authentication returns PARTIAL, INFO or
  DENIED. The flag \<open>need_passphrase\<close> is read after \<^verbatim>\<open>ssh_userauth_autopubkey\<close> has returned,
  so it is set when it was set before or when the passphrase callback ran during this
  attempt. When it is not set, the client is killed with the message that no ssh keys were
  found: it leaves the queue, is freed, and the message is shown if no client remains.
  When it is set, the passphrase prompt is requested (the pane shows the password prompt) and
  the client is neither removed nor freed and stays in \<open>SSH_AUTH_CLIENT\<close>; any passphrase
  submitted then is cached on the session, \<open>on_ssh_client_event\<close> is run again for the client,
  and the authentication it starts is given that passphrase.
\<close>

theorem auth_denied_paths:
  assumes "state (heap w c) = SSH_AUTH_CLIENT"
    and "denied (ssh_userauth_autopubkey_r lib)"
  shows "\<exists>w'. on_ssh_client_event opts lib c w = Inr w' \<and>
     (if need_passphrase w \<or> auth_function_called lib
      then clients w' = clients w \<and>
           heap w' = (heap w)(c := (heap w c)\<lparr>tried_passphrase := passphrase w\<rparr>) \<and>
           pane w' =
             (case pane w of PasswordMode other \<Rightarrow> PasswordMode other | _ \<Rightarrow> PasswordMode c) \<and>
           TailqRemove c \<notin> set (since w w') \<and> Free c \<notin> set (since w w') \<and>
           (\<forall>p lib2. \<exists>w2. on_passphrase_read opts lib2 p c w' = Inr w2 \<and>
              on_passphrase_read opts lib2 p c w' =
                on_ssh_client_event opts lib2 c (w'\<lparr>passphrase := Some p\<rparr>) \<and>
              passphrase w2 = Some p \<and> tried_passphrase (heap w2 c) = Some p \<and>
              take 1 (since w' w2) = [Userauth c (Some p)])
      else clients w' = remove1 c (clients w) \<and>
           state (heap w' c) = SSH_NONE \<and> freed (heap w' c) \<and> \<not> session (heap w' c) \<and>
           pane w' = pane w \<and>
           TailqRemove c \<in> set (since w w') \<and> Free c \<in> set (since w w') \<and>
           status_messages (since w w') =
             (if clients w' = [] then [keys_not_found] else []) @
             (if passphrase w = None then [] else [retry_hint]))"
proof -
  let ?a = "attempt lib c w"
  let ?w' = "auth_denied c ?a"
  have r: "on_ssh_client_event opts lib c w = Inr ?w'"
    using assms by (simp add: on_ssh_client_event_auth_client on_auth_client_denied)
  have a: "trace ?a = trace w @ [Userauth c (passphrase w)]"
      "passphrase ?a = passphrase w" "tried_passphrase (heap ?a c) = passphrase w"
      "clients ?a = clients w" "pane ?a = pane w"
      "need_passphrase ?a = (need_passphrase w \<or> auth_function_called lib)"
      "heap ?a = (heap w)(c := (heap w c)\<lparr>tried_passphrase := passphrase w\<rparr>)"
    using attempt_facts [of lib c w] by simp_all
  show ?thesis
  proof (cases "need_passphrase w \<or> auth_function_called lib")
    case True
    then have n: "need_passphrase ?a" using a(6) by simp
    note p = auth_denied_prompt [OF n, of c]
    have st: "state (heap ?w' c) = SSH_AUTH_CLIENT"
      using p a(7) assms(1) by simp
    have resume: "\<exists>w2. on_passphrase_read opts lib2 p c ?w' = Inr w2 \<and>
              on_passphrase_read opts lib2 p c ?w' =
                on_ssh_client_event opts lib2 c (?w'\<lparr>passphrase := Some p\<rparr>) \<and>
              passphrase w2 = Some p \<and> tried_passphrase (heap w2 c) = Some p \<and>
              take 1 (since ?w' w2) = [Userauth c (Some p)]" for p lib2
    proof -
      let ?v = "?w'\<lparr>passphrase := Some p\<rparr>"
      have "state (heap ?v c) = SSH_AUTH_CLIENT" using st by simp
      then have ev: "on_passphrase_read opts lib2 p c ?w' = on_auth_client lib2 c ?v"
        by (simp add: on_passphrase_read_def on_ssh_client_event_auth_client)
      obtain w2 where w2: "on_auth_client lib2 c ?v = Inr w2" "passphrase w2 = passphrase ?v"
          "tried_passphrase (heap w2 c) = passphrase ?v"
          "take 1 (since ?v w2) = [Userauth c (passphrase ?v)]"
        using on_auth_client_resumed [of lib2 c ?v] by blast
      have "since ?w' w2 = since ?v w2" by (simp add: since_def)
      with ev w2 show ?thesis by (simp add: on_passphrase_read_def)
    qed
    have "clients ?w' = clients w"
        "heap ?w' = (heap w)(c := (heap w c)\<lparr>tried_passphrase := passphrase w\<rparr>)"
        "pane ?w' =
           (case pane w of PasswordMode other \<Rightarrow> PasswordMode other | _ \<Rightarrow> PasswordMode c)"
        "TailqRemove c \<notin> set (since w ?w')" "Free c \<notin> set (since w ?w')"
      using p a by (simp_all add: since_def)
    with True r resume show ?thesis by simp
  next
    case False
    then have n: "\<not> need_passphrase ?a" using a(6) by simp
    note k = auth_denied_kill [OF n, of c]
    have cl: "clients ?w' = remove1 c (clients w)" using k a(4) by simp
    have tr: "since w ?w' =
        [Userauth c (passphrase w)] @ since ?a (kill_ssh_client c (Some keys_not_found) ?a) @
        (if passphrase w = None then [] else [StatusMessage retry_hint])"
      using k a by (simp add: since_def trace_kill trace_reconnect)
    have sm: "status_messages (since ?a (kill_ssh_client c (Some keys_not_found) ?a)) =
        (if clients ?w' = [] then [keys_not_found] else [])"
      using status_messages_kill [of ?a c keys_not_found] cl a(4) by simp
    have "TailqRemove c \<in> set (since ?a (kill_ssh_client c (Some keys_not_found) ?a))"
        "Free c \<in> set (since ?a (kill_ssh_client c (Some keys_not_found) ?a))"
      by (simp_all add: since_def trace_kill trace_reconnect)
    then have "TailqRemove c \<in> set (since w ?w')" "Free c \<in> set (since w ?w')"
      unfolding tr by simp_all
    moreover have "status_messages (since w ?w') =
             (if clients ?w' = [] then [keys_not_found] else []) @
             (if passphrase w = None then [] else [retry_hint])"
      unfolding tr using sm by simp
    ultimately show ?thesis using False r k a(5) cl by simp
  qed
qed

theorem auth_denied_paths_witness:
  "state (heap asked 0) = SSH_AUTH_CLIENT \<and> need_passphrase asked \<and>
   state (heap waiting 0) = SSH_AUTH_CLIENT \<and> \<not> need_passphrase waiting \<and>
   denied (ssh_userauth_autopubkey_r (lib_ok\<lparr>ssh_userauth_autopubkey_r := SSH_AUTH_DENIED\<rparr>)) \<and>
   (case on_ssh_client_event ex_opts
           (lib_ok\<lparr>ssh_userauth_autopubkey_r := SSH_AUTH_DENIED\<rparr>) 0 asked of
      Inr w' \<Rightarrow>
        clients w' = [0] \<and> pane w' = PasswordMode 0 \<and>
        state (heap w' 0) = SSH_AUTH_CLIENT \<and>
        (case on_passphrase_read ex_opts lib_ok ''secret'' 0 w' of
           Inr w2 \<Rightarrow>
             passphrase w2 = Some ''secret'' \<and>
             tried_passphrase (heap w2 0) = Some ''secret'' \<and>
             take 1 (since w' w2) = [Userauth 0 (Some ''secret'')]
         | Inl e \<Rightarrow> False)
    | Inl e \<Rightarrow> False) \<and>
   (case on_ssh_client_event ex_opts
           (lib_ok\<lparr>ssh_userauth_autopubkey_r := SSH_AUTH_DENIED\<rparr>) 0 waiting of
      Inr w' \<Rightarrow>
        clients w' = [] \<and> freed (heap w' 0) \<and> state (heap w' 0) = SSH_NONE \<and>
        status_messages (since waiting w') = [keys_not_found]
    | Inl e \<Rightarrow> False)"
  using auth_denied_paths
          [of asked 0 "lib_ok\<lparr>ssh_userauth_autopubkey_r := SSH_AUTH_DENIED\<rparr>" ex_opts]
        auth_denied_paths
          [of waiting 0 "lib_ok\<lparr>ssh_userauth_autopubkey_r := SSH_AUTH_DENIED\<rparr>" ex_opts]
  by (simp add: machine_defs example_defs teardown_defs denied_def since_def Let_def)

text \<open>
  Claim C6 as stated fails. The passphrase callback has run in an earlier attempt, so
  \<open>need_passphrase\<close> is set, and no passphrase has been typed yet. The authentication is
  denied: the prompt is requested, the client stays, and no message is shown to the user.
\<close>

theorem first_prompt_without_hint:
  "need_passphrase asked \<and> passphrase asked = None \<and>
   state (heap asked 0) = SSH_AUTH_CLIENT \<and>
   (case on_ssh_client_event ex_opts
           (lib_ok\<lparr>ssh_userauth_autopubkey_r := SSH_AUTH_DENIED\<rparr>) 0 asked of
      Inr w' \<Rightarrow>
        pane w' = PasswordMode 0 \<and> clients w' = [0] \<and>
        status_messages (since asked w') = []
    | Inl e \<Rightarrow> False)"
  by (simp add: machine_defs example_defs teardown_defs since_def Let_def)

text \<open>
  Claim C6, amended. For a client in \<open>SSH_AUTH_CLIENT\<close> whose authentication returns PARTIAL,
  INFO or DENIED while \<open>need_passphrase\<close> is set, the prompt is requested, and the retry hint
  is shown exactly when a passphrase was cached on the session when the attempt started
  (the attempt's \<open>tried_passphrase\<close> is not NULL); it is then the only message shown.
\<close>

theorem retry_hint_after_typed_passphrase:
  assumes "state (heap w c) = SSH_AUTH_CLIENT"
    and "denied (ssh_userauth_autopubkey_r lib)"
    and "need_passphrase w \<or> auth_function_called lib"
  shows "\<exists>w'. on_ssh_client_event opts lib c w = Inr w' \<and>
     pane w' =
       (case pane w of PasswordMode other \<Rightarrow> PasswordMode other | _ \<Rightarrow> PasswordMode c) \<and>
     status_messages (since w w') = (if passphrase w = None then [] else [retry_hint])"
proof -
  let ?a = "attempt lib c w"
  have r: "on_ssh_client_event opts lib c w = Inr (auth_denied c ?a)"
    using assms(1,2) by (simp add: on_ssh_client_event_auth_client on_auth_client_denied)
  have n: "need_passphrase ?a" using assms(3) attempt_facts [of lib c w] by simp
  have "pane (auth_denied c ?a) =
       (case pane w of PasswordMode other \<Rightarrow> PasswordMode other | _ \<Rightarrow> PasswordMode c)"
    using auth_denied_prompt [OF n, of c] attempt_facts [of lib c w] by simp
  moreover have "status_messages (since w (auth_denied c ?a)) =
      (if passphrase w = None then [] else [retry_hint])"
    using auth_denied_prompt [OF n, of c] attempt_facts [of lib c w] by (simp add: since_def)
  ultimately show ?thesis using r by simp
qed

theorem retry_hint_after_typed_passphrase_witness:
  "state (heap typed 0) = SSH_AUTH_CLIENT \<and>
   denied (ssh_userauth_autopubkey_r (lib_ok\<lparr>ssh_userauth_autopubkey_r := SSH_AUTH_DENIED\<rparr>)) \<and>
   need_passphrase typed \<and> passphrase typed = Some ''secret'' \<and>
   (case on_ssh_client_event ex_opts
           (lib_ok\<lparr>ssh_userauth_autopubkey_r := SSH_AUTH_DENIED\<rparr>) 0 typed of
      Inr w' \<Rightarrow> status_messages (since typed w') = [retry_hint]
    | Inl e \<Rightarrow> False)"
  using retry_hint_after_typed_passphrase
          [of typed 0 "lib_ok\<lparr>ssh_userauth_autopubkey_r := SSH_AUTH_DENIED\<rparr>" ex_opts]
  by (simp add: machine_defs example_defs teardown_defs denied_def since_def Let_def)

subsection \<open>What a step leaves alone\<close>

lemma frame_refl [simp]: "frame c w w"
  by (simp add: frame_def)

lemma frame_trans: "frame c w w1 \<Longrightarrow> frame c w1 w2 \<Longrightarrow> frame c w w2"
  by (simp add: frame_def) metis

lemma frame_emit [simp]: "frame c w (emit e w)"
  by (simp add: frame_def emit_def)

lemma frame_reconnect [simp]: "frame c w (reconnect_ssh_client d fmt w)"
  by (simp add: frame_def teardown_defs Let_def split: option.splits)

lemma frame_kill [simp]: "frame c w (kill_ssh_client d fmt w)"
  by (simp add: frame_def teardown_defs Let_def split: option.splits)

lemma frame_state_upd [simp]: "frame c w (upd_client c (\<lambda>cl. cl\<lparr>state := s\<rparr>) w)"
  by (simp add: frame_def upd_client_def)

lemma frame_bridge [simp]: "frame c w (w\<lparr>encoder := e, decoder := d\<rparr>)"
  by (simp add: frame_def)

lemma frame_read_channel [simp]: "frame c w (read_channel c err lens w)"
proof (induction lens arbitrary: w)
  case Nil
  show ?case by simp
next
  case (Cons len rest)
  have "frame c w (read_channel c err rest (emit (DecoderCommit len) w))"
    using frame_trans [OF frame_emit Cons.IH] .
  then show ?case by simp
qed

lemma on_ready_frame: "\<exists>w'. on_ready lib c w = Inr w' \<and> frame c w w'"
  unfolding on_ready_def Let_def
  by (auto intro: frame_trans [OF frame_read_channel frame_reconnect])

lemma on_bootstrap_frame: "\<exists>w'. on_bootstrap lib c w = Inr w' \<and> frame c w w'"
proof (cases "ssh_channel_request_subsystem_r lib")
  case SSH_OK
  let ?w1 = "(upd_client c (\<lambda>cl. cl\<lparr>state := SSH_READY\<rparr>) (emit (Debug ''Ready'') w))
               \<lparr>encoder := Some c, decoder := Some c\<rparr>"
  have k: "frame c w ?w1"
    by (rule frame_trans [OF frame_emit]) (rule frame_trans [OF frame_state_upd frame_bridge])
  obtain w' where "on_ready lib c ?w1 = Inr w'" "frame c ?w1 w'"
    using on_ready_frame by blast
  with k SSH_OK show ?thesis
    by (auto simp: on_bootstrap_def intro: frame_trans)
next
  case SSH_EOF
  then show ?thesis using on_ready_frame [of lib c w] by (simp add: on_bootstrap_def)
qed (simp_all add: on_bootstrap_def)

lemma on_open_channel_frame: "\<exists>w'. on_open_channel lib c w = Inr w' \<and> frame c w w'"
proof (cases "ssh_channel_open_session_r lib")
  case SSH_OK
  let ?w1 = "upd_client c (\<lambda>cl. cl\<lparr>state := SSH_BOOTSTRAP\<rparr>)
               (emit (Debug ''Session opened, initalizing tmate'') w)"
  have k: "frame c w ?w1"
    by (rule frame_trans [OF frame_emit frame_state_upd])
  obtain w' where "on_bootstrap lib c ?w1 = Inr w'" "frame c ?w1 w'"
    using on_bootstrap_frame by blast
  with k SSH_OK show ?thesis
    by (auto simp: on_open_channel_def intro: frame_trans)
next
  case SSH_EOF
  then show ?thesis using on_bootstrap_frame [of lib c w] by (simp add: on_open_channel_def)
qed (simp_all add: on_open_channel_def)

lemma frame_attempt [simp]: "frame c w (attempt lib c w)"
  by (simp add: frame_def attempt_def Let_def upd_client_def emit_def)

lemma frame_auth_denied [simp]: "frame c w (auth_denied c w)"
  unfolding auth_denied_def Let_def
  by (auto simp: request_passphrase_def frame_def teardown_defs emit_def Let_def
      split: pane_mode.splits option.splits)

lemma on_auth_client_frame: "\<exists>w'. on_auth_client lib c w = Inr w' \<and> frame c w w'"
proof (cases "ssh_userauth_autopubkey_r lib")
  case SSH_AUTH_SUCCESS
  let ?w1 = "upd_client c (\<lambda>cl. cl\<lparr>state := SSH_OPEN_CHANNEL\<rparr>)
               (emit (Debug ''Auth successful'') (attempt lib c w))"
  have k: "frame c w ?w1"
    by (rule frame_trans [OF frame_attempt]) (rule frame_trans [OF frame_emit frame_state_upd])
  obtain w' where "on_open_channel lib c ?w1 = Inr w'" "frame c ?w1 w'"
    using on_open_channel_frame by blast
  with k SSH_AUTH_SUCCESS show ?thesis
    by (auto simp: on_auth_client_attempt intro: frame_trans)
qed (auto simp: on_auth_client_attempt
       intro: frame_trans [OF frame_attempt frame_auth_denied]
              frame_trans [OF frame_attempt frame_reconnect])

lemma kill_other_clients_frame:
  "kill_other_clients c cs w = Inr w' \<Longrightarrow> frame c w w'"
proof (induction cs arbitrary: w)
  case Nil
  then show ?case by simp
next
  case (Cons d cs)
  show ?case
  proof (cases "d = c \<or> has_encoder (heap w d)")
    case True
    with Cons show ?thesis by (auto split: if_splits)
  next
    case False
    with Cons.prems have "kill_other_clients c cs (kill_ssh_client d None w) = Inr w'"
      by simp
    then have "frame c (kill_ssh_client d None w) w'" by (rule Cons.IH)
    then show ?thesis by (rule frame_trans [OF frame_kill])
  qed
qed

lemma kill_other_clients_no_assert:
  "(\<forall>x. \<not> has_encoder (heap w x)) \<Longrightarrow> \<exists>w'. kill_other_clients c cs w = Inr w'"
proof (induction cs arbitrary: w)
  case Nil
  show ?case by simp
next
  case (Cons d cs)
  have "\<forall>x. \<not> has_encoder (heap (kill_ssh_client d None w) x)"
    using Cons.prems frame_kill [of c w d None] by (simp add: frame_def)
  then show ?case using Cons.IH Cons.prems by simp
qed

lemma on_auth_server_cases:
  assumes "on_auth_server opts lib c w = Inr w'"
  obtains (killed) "w' = kill_ssh_client c (Some cannot_authenticate) w"
  | (won) w1 where
      "kill_other_clients c (clients w)
         (emit (Debug (''Connected to '' @ server_ip (heap w c))) w) = Inr w1"
      "on_auth_client lib c (upd_client c (\<lambda>cl. cl\<lparr>state := SSH_AUTH_CLIENT\<rparr>) w1) = Inr w'"
proof (cases "ssh_get_publickey_r lib \<and> ssh_get_publickey_hash_r lib")
  case False
  with assms killed show ?thesis
    by (auto simp: on_auth_server_def split: if_splits)
next
  case True
  show ?thesis
  proof (cases "ssh_get_hexa_r lib")
    case None
    with assms True show ?thesis by (simp add: on_auth_server_def)
  next
    case (Some hash_str)
    show ?thesis
    proof (cases "hash_str = server_hash_str opts (ssh_key_type_r lib)")
      case False
      with assms True Some killed show ?thesis by (simp add: on_auth_server_def)
    next
      case match: True
      show ?thesis
      proof (cases "kill_other_clients c (clients w)
                      (emit (Debug (''Connected to '' @ server_ip (heap w c))) w)")
        case (Inl e)
        with assms True Some match show ?thesis
          by (simp add: on_auth_server_def on_ssh_auth_server_complete_def emit_def)
      next
        case (Inr w1)
        with assms True Some match won show ?thesis
          by (simp add: on_auth_server_def on_ssh_auth_server_complete_def emit_def)
      qed
    qed
  qed
qed

lemma on_auth_server_frame:
  assumes "on_auth_server opts lib c w = Inr w'"
  shows "frame c w w'"
  using assms
proof (cases rule: on_auth_server_cases)
  case killed
  then show ?thesis by simp
next
  case (won w1)
  let ?w0 = "emit (Debug (''Connected to '' @ server_ip (heap w c))) w"
  let ?w2 = "upd_client c (\<lambda>cl. cl\<lparr>state := SSH_AUTH_CLIENT\<rparr>) w1"
  have "frame c ?w0 w1" using won(1) by (rule kill_other_clients_frame)
  then have "frame c w w1" by (rule frame_trans [OF frame_emit])
  then have "frame c w ?w2" by (rule frame_trans) simp
  moreover have "frame c ?w2 w'" using on_auth_client_frame [of lib c ?w2] won(2) by simp
  ultimately show ?thesis by (rule frame_trans)
qed

lemma frame_register [simp]: "frame c w (register_session_fd_event c w)"
  by (simp add: frame_def register_session_fd_event_def upd_client_def)

lemma on_connect_frame:
  assumes "on_connect opts lib c w = Inr w'"
  shows "frame c w w'"
proof (cases "ssh_connect_r lib")
  case SSH_OK
  let ?w1 = "register_session_fd_event c w"
  let ?w3 = "upd_client c (\<lambda>cl. cl\<lparr>state := SSH_AUTH_SERVER\<rparr>)
               (emit (Debug (''Establishing connection to '' @ server_ip (heap ?w1 c))) ?w1)"
  have "on_auth_server opts lib c ?w3 = Inr w'"
    using assms SSH_OK by (simp add: on_connect_def Let_def)
  then have "frame c ?w3 w'" by (rule on_auth_server_frame)
  moreover have "frame c w ?w3"
    by (rule frame_trans [OF frame_register]) (rule frame_trans [OF frame_emit frame_state_upd])
  ultimately show ?thesis by (rule frame_trans [rotated])
next
  case SSH_EOF
  with assms show ?thesis by (simp add: on_connect_def on_auth_server_frame)
qed (use assms in \<open>auto simp: on_connect_def\<close>)

lemma frame_init_handles [simp]:
  "frame c w (upd_client c (\<lambda>cl. cl\<lparr>session := True, channel := True\<rparr>) w)"
  by (simp add: frame_def upd_client_def)

lemma on_init_frame:
  assumes "on_init opts lib c w = Inr w'"
  shows "frame c w w'"
proof -
  let ?w1 = "upd_client c (\<lambda>cl. cl\<lparr>session := True, channel := True\<rparr>) w"
  let ?w2 = "case get_identity (tmate_identity opts) of
               Some identity \<Rightarrow> emit (OptionsSetIdentity c identity) ?w1
             | None \<Rightarrow> ?w1"
  let ?w3 = "upd_client c (\<lambda>cl. cl\<lparr>state := SSH_CONNECT\<rparr>) ?w2"
  have "on_connect opts lib c ?w3 = Inr w'"
    using assms by (simp add: on_init_def Let_def split: if_splits)
  then have "frame c ?w3 w'" by (rule on_connect_frame)
  moreover have "frame c ?w1 ?w2" by (simp split: option.splits)
  then have "frame c w ?w2" by (rule frame_trans [OF frame_init_handles])
  then have "frame c w ?w3" by (rule frame_trans) simp
  ultimately show ?thesis by (rule frame_trans [rotated])
qed

lemma on_ssh_client_event_frame:
  assumes "on_ssh_client_event opts lib c w = Inr w'"
  shows "frame c w w'"
proof (cases "state (heap w c)")
  case SSH_NONE
  with assms show ?thesis by (simp add: on_ssh_client_event_def)
next
  case SSH_INIT
  with assms show ?thesis by (simp add: on_ssh_client_event_def on_init_frame)
next
  case SSH_CONNECT
  with assms show ?thesis by (simp add: on_ssh_client_event_def on_connect_frame)
next
  case SSH_AUTH_SERVER
  with assms show ?thesis by (simp add: on_ssh_client_event_def on_auth_server_frame)
next
  case SSH_AUTH_CLIENT
  with assms on_auth_client_frame [of lib c w] show ?thesis
    by (simp add: on_ssh_client_event_def)
next
  case SSH_OPEN_CHANNEL
  with assms on_open_channel_frame [of lib c w] show ?thesis
    by (simp add: on_ssh_client_event_def)
next
  case SSH_BOOTSTRAP
  with assms on_bootstrap_frame [of lib c w] show ?thesis
    by (simp add: on_ssh_client_event_def)
next
  case SSH_READY
  with assms on_ready_frame [of lib c w] show ?thesis
    by (simp add: on_ssh_client_event_def)
qed

lemma frame_no_encoder: "frame c w w' \<Longrightarrow> no_encoder w \<Longrightarrow> no_encoder w'"
  by (simp add: frame_def no_encoder_def)

lemma on_auth_server_no_assert:
  assumes "no_encoder w"
  shows "on_auth_server opts lib c w \<noteq> Inl AssertFailed"
proof -
  let ?w0 = "emit (Debug (''Connected to '' @ server_ip (heap w c))) w"
  have "no_encoder ?w0" using assms by (simp add: no_encoder_def emit_def)
  then obtain w1 where w1: "kill_other_clients c (clients w) ?w0 = Inr w1"
    using kill_other_clients_no_assert [of ?w0 c "clients w"] by (auto simp: no_encoder_def)
  obtain w' where
    "on_auth_client lib c (upd_client c (\<lambda>cl. cl\<lparr>state := SSH_AUTH_CLIENT\<rparr>) w1) = Inr w'"
    using on_auth_client_frame by blast
  with w1 show ?thesis
    by (simp add: on_auth_server_def on_ssh_auth_server_complete_def emit_def
        split: option.splits)
qed

lemma on_connect_no_assert:
  assumes "no_encoder w"
  shows "on_connect opts lib c w \<noteq> Inl AssertFailed"
proof (cases "ssh_connect_r lib")
  case SSH_OK
  let ?w1 = "register_session_fd_event c w"
  let ?w3 = "upd_client c (\<lambda>cl. cl\<lparr>state := SSH_AUTH_SERVER\<rparr>)
               (emit (Debug (''Establishing connection to '' @ server_ip (heap ?w1 c))) ?w1)"
  have "frame c w ?w3"
    by (rule frame_trans [OF frame_register]) (rule frame_trans [OF frame_emit frame_state_upd])
  then have "no_encoder ?w3" using assms by (rule frame_no_encoder)
  then show ?thesis using SSH_OK by (simp add: on_connect_def Let_def on_auth_server_no_assert)
next
  case SSH_EOF
  then show ?thesis using assms by (simp add: on_connect_def on_auth_server_no_assert)
qed (simp_all add: on_connect_def)

lemma on_init_no_assert:
  assumes "no_encoder w"
  shows "on_init opts lib c w \<noteq> Inl AssertFailed"
proof -
  let ?w1 = "upd_client c (\<lambda>cl. cl\<lparr>session := True, channel := True\<rparr>) w"
  let ?w2 = "case get_identity (tmate_identity opts) of
               Some identity \<Rightarrow> emit (OptionsSetIdentity c identity) ?w1
             | None \<Rightarrow> ?w1"
  let ?w3 = "upd_client c (\<lambda>cl. cl\<lparr>state := SSH_CONNECT\<rparr>) ?w2"
  have "frame c ?w1 ?w2" by (simp split: option.splits)
  then have "frame c w ?w2" by (rule frame_trans [OF frame_init_handles])
  then have "frame c w ?w3" by (rule frame_trans) simp
  then have "no_encoder ?w3" using assms by (rule frame_no_encoder)
  then show ?thesis by (simp add: on_init_def Let_def on_connect_no_assert)
qed

lemma on_ssh_client_event_no_assert:
  assumes "no_encoder w"
  shows "on_ssh_client_event opts lib c w \<noteq> Inl AssertFailed"
proof (cases "state (heap w c)")
  case SSH_AUTH_CLIENT
  with on_auth_client_frame [of lib c w] show ?thesis
    by (auto simp: on_ssh_client_event_def)
next
  case SSH_OPEN_CHANNEL
  with on_open_channel_frame [of lib c w] show ?thesis
    by (auto simp: on_ssh_client_event_def)
next
  case SSH_BOOTSTRAP
  with on_bootstrap_frame [of lib c w] show ?thesis
    by (auto simp: on_ssh_client_event_def)
next
  case SSH_READY
  with on_ready_frame [of lib c w] show ?thesis
    by (auto simp: on_ssh_client_event_def)
qed (use assms in \<open>simp_all add: on_ssh_client_event_def on_init_no_assert
        on_connect_no_assert on_auth_server_no_assert\<close>)

lemma tmate_ssh_client_alloc_allocated:
  "tmate_ssh_client_alloc opts lib mem ip w =
     on_ssh_client_event opts lib (next_client w) (allocated mem ip w)"
  by (simp add: tmate_ssh_client_alloc_def connect_ssh_client_def allocated_def Let_def
      upd_client_def)

lemma no_encoder_allocated: "no_encoder w \<Longrightarrow> no_encoder (allocated mem ip w)"
  by (simp add: no_encoder_def allocated_def)

lemma step_no_encoder:
  assumes "no_encoder w"
  shows "step opts i w \<noteq> Inl AssertFailed \<and> (\<forall>w'. step opts i w = Inr w' \<longrightarrow> no_encoder w')"
proof (cases i)
  case (Readiness c lib)
  then show ?thesis
    using assms on_ssh_client_event_no_assert [OF assms, of opts lib c]
      on_ssh_client_event_frame [of opts lib c w]
    by (auto intro: frame_no_encoder)
next
  case (PassphraseRead p c lib)
  let ?v = "w\<lparr>passphrase := Some p\<rparr>"
  have v: "no_encoder ?v" using assms by (simp add: no_encoder_def)
  show ?thesis
    using PassphraseRead v on_ssh_client_event_no_assert [OF v, of opts lib c]
      on_ssh_client_event_frame [of opts lib c ?v]
    by (auto simp: on_passphrase_read_def intro: frame_no_encoder)
next
  case (Alloc mem ip lib)
  let ?v = "allocated mem ip w"
  have v: "no_encoder ?v" using assms by (rule no_encoder_allocated)
  show ?thesis
    using Alloc v on_ssh_client_event_no_assert [OF v, of opts lib "next_client w"]
      on_ssh_client_event_frame [of opts lib "next_client w" ?v]
    by (auto simp: tmate_ssh_client_alloc_allocated intro: frame_no_encoder)
qed

lemma run_no_encoder:
  "no_encoder w \<Longrightarrow>
   run opts inputs w \<noteq> Inl AssertFailed \<and>
   (\<forall>w'. run opts inputs w = Inr w' \<longrightarrow> no_encoder w')"
proof (induction inputs arbitrary: w)
  case Nil
  then show ?case by simp
next
  case (Cons i inputs)
  show ?case
  proof (cases "step opts i w")
    case (Inl e)
    with step_no_encoder [OF Cons.prems, of opts i] show ?thesis by auto
  next
    case (Inr w1)
    with step_no_encoder [OF Cons.prems, of opts i] have "no_encoder w1" by simp
    from Cons.IH [OF this] Inr show ?thesis by simp
  qed
qed

lemma step_has_encoder:
  assumes "step opts i w = Inr w'"
  shows "has_encoder (heap w' x) =
     (has_encoder (heap w x) \<and> \<not> (is_alloc i \<and> x = next_client w))"
proof (cases i)
  case (Readiness c lib)
  with assms on_ssh_client_event_frame [of opts lib c w w'] show ?thesis
    by (simp add: frame_def)
next
  case (PassphraseRead p c lib)
  with assms on_ssh_client_event_frame [of opts lib c "w\<lparr>passphrase := Some p\<rparr>" w']
  show ?thesis by (simp add: frame_def on_passphrase_read_def)
next
  case (Alloc mem ip lib)
  with assms have "frame (next_client w) (allocated mem ip w) w'"
    by (simp add: tmate_ssh_client_alloc_allocated on_ssh_client_event_frame)
  then have "has_encoder (heap w' x) = has_encoder (heap (allocated mem ip w) x)"
    by (simp add: frame_def)
  with Alloc show ?thesis by (simp add: allocated_def)
qed

subsection \<open>The race\<close>

lemma race_inv_cong:
  "clients w' = clients w \<Longrightarrow> (\<forall>c. state (heap w' c) = state (heap w c)) \<Longrightarrow>
   race_inv w' = race_inv w"
  by (simp add: race_inv_def)

lemma heap_emit: "heap (emit e w) = heap w"
  by (simp add: emit_def)

lemma race_inv_emit [simp]: "race_inv (emit e w) = race_inv w"
  by (rule race_inv_cong) (simp_all add: emit_def)

lemma race_inv_torn:
  assumes "race_inv w" and "clients w' = remove1 c (clients w)"
    and "state (heap w' c) = SSH_NONE" and "\<forall>x. x \<noteq> c \<longrightarrow> state (heap w' x) = state (heap w x)"
  shows "race_inv w'"
proof -
  have d: "distinct (clients w')" using assms(1,2) by (simp add: race_inv_def)
  have m: "x \<in> set (clients w')" if "state (heap w' x) \<noteq> SSH_NONE" for x
  proof -
    have "x \<noteq> c" using that assms(3) by auto
    moreover from this have "state (heap w x) \<noteq> SSH_NONE" using that assms(4) by simp
    then have "x \<in> set (clients w)" using assms(1) by (simp add: race_inv_def)
    ultimately show ?thesis using assms(2) by simp
  qed
  have j: "y = x" if "past_auth (state (heap w' x))" "state (heap w' y) \<noteq> SSH_NONE" for x y
  proof -
    have "x \<noteq> c" "y \<noteq> c" using that assms(3) by (auto simp: past_auth_def)
    then have "past_auth (state (heap w x))" "state (heap w y) \<noteq> SSH_NONE"
      using that assms(4) by simp_all
    then show ?thesis using assms(1) unfolding race_inv_def by blast
  qed
  show ?thesis unfolding race_inv_def using d m j by blast
qed

lemma race_inv_reconnect: "race_inv w \<Longrightarrow> race_inv (reconnect_ssh_client c fmt w)"
  by (rule race_inv_torn [where c = c and w = w])
     (simp_all add: heap_reconnect_self heap_reconnect_other)

lemma race_inv_kill: "race_inv w \<Longrightarrow> race_inv (kill_ssh_client c fmt w)"
  by (rule race_inv_torn [where c = c and w = w])
     (simp_all add: heap_kill_self heap_reconnect_self heap_kill_other)

lemma race_inv_read_channel: "race_inv w \<Longrightarrow> race_inv (read_channel c err lens w)"
  by (induction lens arbitrary: w) (simp_all add: race_inv_reconnect)

lemma on_ready_race: "race_inv w \<Longrightarrow> on_ready lib c w = Inr w' \<Longrightarrow> race_inv w'"
  by (auto simp: on_ready_def Let_def race_inv_read_channel race_inv_reconnect
      split: if_splits)

lemma race_inv_advance:
  assumes "race_inv w" and "past_auth (state (heap w c))" and "past_auth s"
  shows "race_inv (upd_client c (\<lambda>cl. cl\<lparr>state := s\<rparr>) w)"
  using assms unfolding race_inv_def upd_client_def
  by (auto simp: past_auth_def)

lemma race_inv_preauth:
  assumes "race_inv w" and "state (heap w c) \<noteq> SSH_NONE" and "\<not> past_auth s"
  shows "race_inv (upd_client c (\<lambda>cl. cl\<lparr>state := s\<rparr>) w)"
  using assms unfolding race_inv_def upd_client_def
  by (auto simp: past_auth_def split: if_splits)

lemma race_inv_alone:
  assumes "distinct (clients w)" and "c \<in> set (clients w)"
    and "\<forall>x. x \<noteq> c \<longrightarrow> state (heap w x) = SSH_NONE"
  shows "race_inv (upd_client c (\<lambda>cl. cl\<lparr>state := s\<rparr>) w)"
  using assms unfolding race_inv_def upd_client_def
  by (auto simp: past_auth_def split: if_splits)

lemma on_bootstrap_race:
  assumes "race_inv w" and "past_auth (state (heap w c))" and "on_bootstrap lib c w = Inr w'"
  shows "race_inv w'"
proof (cases "ssh_channel_request_subsystem_r lib")
  case SSH_OK
  let ?w1 = "upd_client c (\<lambda>cl. cl\<lparr>state := SSH_READY\<rparr>) (emit (Debug ''Ready'') w)"
  have "race_inv ?w1"
    using assms(1,2) by (intro race_inv_advance) (simp_all add: heap_emit past_auth_def)
  then have "race_inv (?w1\<lparr>encoder := Some c, decoder := Some c\<rparr>)"
    by (simp add: race_inv_def)
  then show ?thesis using assms(3) SSH_OK by (auto simp: on_bootstrap_def intro: on_ready_race)
next
  case SSH_ERROR
  with assms show ?thesis by (auto simp: on_bootstrap_def race_inv_reconnect)
qed (use assms in \<open>auto simp: on_bootstrap_def intro: on_ready_race\<close>)

lemma on_open_channel_race:
  assumes "race_inv w" and "past_auth (state (heap w c))" and "on_open_channel lib c w = Inr w'"
  shows "race_inv w'"
proof (cases "ssh_channel_open_session_r lib")
  case SSH_OK
  let ?w1 = "upd_client c (\<lambda>cl. cl\<lparr>state := SSH_BOOTSTRAP\<rparr>)
               (emit (Debug ''Session opened, initalizing tmate'') w)"
  have "race_inv ?w1"
    using assms(1,2) by (intro race_inv_advance) (simp_all add: heap_emit past_auth_def)
  moreover have "past_auth (state (heap ?w1 c))"
    by (simp add: upd_client_def past_auth_def)
  ultimately show ?thesis
    using assms(3) SSH_OK by (auto simp: on_open_channel_def intro: on_bootstrap_race)
next
  case SSH_ERROR
  with assms show ?thesis by (auto simp: on_open_channel_def race_inv_reconnect)
qed (use assms in \<open>auto simp: on_open_channel_def intro: on_bootstrap_race\<close>)

lemma race_inv_attempt [simp]: "race_inv (attempt lib c w) = race_inv w"
  by (rule race_inv_cong) (simp_all add: attempt_def Let_def upd_client_def emit_def)

lemma race_inv_auth_denied: "race_inv w \<Longrightarrow> race_inv (auth_denied c w)"
proof -
  assume r: "race_inv w"
  have "race_inv (request_passphrase c w)"
    using r by (simp add: race_inv_def request_passphrase_def split: pane_mode.splits)
  with r show ?thesis
    by (simp add: auth_denied_def Let_def race_inv_kill)
qed

lemma on_auth_client_race:
  assumes "race_inv w" and "past_auth (state (heap w c))" and "on_auth_client lib c w = Inr w'"
  shows "race_inv w'"
proof (cases "ssh_userauth_autopubkey_r lib")
  case SSH_AUTH_SUCCESS
  let ?w1 = "upd_client c (\<lambda>cl. cl\<lparr>state := SSH_OPEN_CHANNEL\<rparr>)
               (emit (Debug ''Auth successful'') (attempt lib c w))"
  have "past_auth (state (heap (emit (Debug ''Auth successful'') (attempt lib c w)) c))"
    using assms(2) by (simp add: attempt_def Let_def upd_client_def emit_def)
  then have "race_inv ?w1"
    using assms(1) by (intro race_inv_advance) (simp_all add: past_auth_def)
  moreover have "past_auth (state (heap ?w1 c))"
    by (simp add: upd_client_def past_auth_def)
  ultimately show ?thesis
    using assms(3) SSH_AUTH_SUCCESS
    by (auto simp: on_auth_client_attempt intro: on_open_channel_race)
qed (use assms in \<open>auto simp: on_auth_client_attempt race_inv_auth_denied race_inv_reconnect\<close>)

lemma kill_other_clients_heap:
  "kill_other_clients c cs w = Inr w1 \<Longrightarrow>
   (\<forall>x. x \<in> set cs \<and> x \<noteq> c \<longrightarrow>
      state (heap w1 x) = SSH_NONE \<and> freed (heap w1 x) \<and> \<not> session (heap w1 x)) \<and>
   (\<forall>x. x \<notin> set cs \<or> x = c \<longrightarrow> heap w1 x = heap w x)"
proof (induction cs arbitrary: w)
  case Nil
  then show ?case by simp
next
  case (Cons d cs)
  show ?case
  proof (cases "d = c")
    case True
    with Cons.prems have "kill_other_clients c cs w = Inr w1" by simp
    from Cons.IH [OF this] True show ?thesis by auto
  next
    case False
    with Cons.prems have r: "kill_other_clients c cs (kill_ssh_client d None w) = Inr w1"
      by (simp split: if_splits)
    note ih = Cons.IH [OF r]
    have k: "state (heap (kill_ssh_client d None w) d) = SSH_NONE"
        "freed (heap (kill_ssh_client d None w) d)"
        "\<not> session (heap (kill_ssh_client d None w) d)"
      by (simp_all add: kill_terminal)
    have o: "heap (kill_ssh_client d None w) x = heap w x" if "x \<noteq> d" for x
      using that by (simp add: heap_kill_other)
    show ?thesis
    proof (intro conjI allI impI)
      fix x assume x: "x \<in> set (d # cs) \<and> x \<noteq> c"
      show "state (heap w1 x) = SSH_NONE" "freed (heap w1 x)" "\<not> session (heap w1 x)"
        using ih k x by (cases "x \<in> set cs"; auto)+
    next
      fix x assume x: "x \<notin> set (d # cs) \<or> x = c"
      then have "x \<noteq> d" using False by auto
      moreover have "heap w1 x = heap (kill_ssh_client d None w) x" using ih x by auto
      ultimately show "heap w1 x = heap w x" using o by simp
    qed
  qed
qed

lemma kill_other_clients_clients:
  "kill_other_clients c cs w = Inr w1 \<Longrightarrow> distinct (clients w) \<Longrightarrow>
   distinct (clients w1) \<and> set (clients w1) = set (clients w) - (set cs - {c})"
proof (induction cs arbitrary: w)
  case Nil
  then show ?case by simp
next
  case (Cons d cs)
  show ?case
  proof (cases "d = c")
    case True
    with Cons.prems have "kill_other_clients c cs w = Inr w1" by simp
    from Cons.IH [OF this Cons.prems(2)] True show ?thesis by auto
  next
    case False
    with Cons.prems have r: "kill_other_clients c cs (kill_ssh_client d None w) = Inr w1"
      by (simp split: if_splits)
    have "distinct (clients (kill_ssh_client d None w))" using Cons.prems(2) by simp
    from Cons.IH [OF r this] Cons.prems(2) False show ?thesis by auto
  qed
qed

lemma kill_other_clients_trace:
  "kill_other_clients c cs w = Inr w1 \<Longrightarrow>
   \<exists>es. trace w1 = trace w @ es \<and> status_messages es = [] \<and>
        (\<forall>x\<in>set cs. x \<noteq> c \<longrightarrow> Free x \<in> set es \<and> TailqRemove x \<in> set es)"
proof (induction cs arbitrary: w)
  case Nil
  then show ?case by simp
next
  case (Cons d cs)
  show ?case
  proof (cases "d = c")
    case True
    with Cons.prems have "kill_other_clients c cs w = Inr w1" by simp
    from Cons.IH [OF this] True show ?thesis by auto
  next
    case False
    with Cons.prems have r: "kill_other_clients c cs (kill_ssh_client d None w) = Inr w1"
      by (simp split: if_splits)
    obtain ks where ks: "trace (kill_ssh_client d None w) = trace w @ ks"
        "status_messages ks = []" "Free d \<in> set ks" "TailqRemove d \<in> set ks"
      by (simp add: trace_kill trace_reconnect)
    from Cons.IH [OF r] obtain es where es: "trace w1 = trace (kill_ssh_client d None w) @ es"
        "status_messages es = []"
        "\<forall>x\<in>set cs. x \<noteq> c \<longrightarrow> Free x \<in> set es \<and> TailqRemove x \<in> set es"
      by blast
    have "trace w1 = trace w @ (ks @ es)" using ks(1) es(1) by simp
    moreover have "status_messages (ks @ es) = []" using ks(2) es(2) by simp
    moreover have "\<forall>x\<in>set (d # cs). x \<noteq> c \<longrightarrow>
        Free x \<in> set (ks @ es) \<and> TailqRemove x \<in> set (ks @ es)"
      using ks(3,4) es(3) by auto
    ultimately show ?thesis by blast
  qed
qed

lemma has_encoder_kill:
  "has_encoder (heap (kill_ssh_client d fmt w) x) = has_encoder (heap w x)"
  using frame_kill [of x w d fmt] by (simp add: frame_def)

lemma kill_other_clients_assert_fails:
  "\<exists>x\<in>set cs. x \<noteq> c \<and> has_encoder (heap w x) \<Longrightarrow>
   kill_other_clients c cs w = Inl AssertFailed"
proof (induction cs arbitrary: w)
  case Nil
  then show ?case by simp
next
  case (Cons d cs)
  show ?case
  proof (cases "d = c \<or> has_encoder (heap w d)")
    case True
    with Cons show ?thesis by auto
  next
    case False
    with Cons.prems have "\<exists>x\<in>set cs. x \<noteq> c \<and> has_encoder (heap (kill_ssh_client d None w) x)"
      by (auto simp: has_encoder_kill)
    from Cons.IH [OF this] False show ?thesis by simp
  qed
qed

lemma kill_other_clients_succeeds:
  "\<forall>x\<in>set cs. x \<noteq> c \<longrightarrow> \<not> has_encoder (heap w x) \<Longrightarrow>
   \<exists>w1. kill_other_clients c cs w = Inr w1"
proof (induction cs arbitrary: w)
  case Nil
  show ?case by simp
next
  case (Cons d cs)
  have "\<forall>x\<in>set cs. x \<noteq> c \<longrightarrow> \<not> has_encoder (heap (kill_ssh_client d None w) x)"
    using Cons.prems by (simp add: has_encoder_kill)
  from Cons.IH [OF this] Cons.IH [of w] Cons.prems show ?case by auto
qed

lemma on_auth_server_race:
  assumes "race_inv w" and "state (heap w c) \<noteq> SSH_NONE"
    and "on_auth_server opts lib c w = Inr w'"
  shows "race_inv w'"
  using assms(3)
proof (cases rule: on_auth_server_cases)
  case killed
  then show ?thesis using assms(1) by (simp add: race_inv_kill)
next
  case (won w1)
  let ?w0 = "emit (Debug (''Connected to '' @ server_ip (heap w c))) w"
  have d: "distinct (clients w)" and m: "c \<in> set (clients w)"
    and n: "x \<notin> set (clients w) \<Longrightarrow> state (heap w x) = SSH_NONE" for x
    using assms(1,2) unfolding race_inv_def by auto
  have "distinct (clients ?w0)" using d by (simp add: emit_def)
  from kill_other_clients_clients [OF won(1) this]
  have c1: "distinct (clients w1)" "c \<in> set (clients w1)"
    using m by (auto simp: emit_def)
  have "state (heap w1 x) = SSH_NONE" if "x \<noteq> c" for x
  proof (cases "x \<in> set (clients w)")
    case True
    with kill_other_clients_heap [OF won(1)] that show ?thesis by simp
  next
    case False
    with kill_other_clients_heap [OF won(1)] have "heap w1 x = heap ?w0 x" by simp
    with n [OF False] show ?thesis by (simp add: emit_def)
  qed
  then have "race_inv (upd_client c (\<lambda>cl. cl\<lparr>state := SSH_AUTH_CLIENT\<rparr>) w1)"
    using c1 by (intro race_inv_alone) simp_all
  moreover have "past_auth (state (heap (upd_client c (\<lambda>cl. cl\<lparr>state := SSH_AUTH_CLIENT\<rparr>) w1) c))"
    by (simp add: upd_client_def past_auth_def)
  ultimately show ?thesis using won(2) by (rule on_auth_client_race)
qed

lemma race_inv_register [simp]: "race_inv (register_session_fd_event c w) = race_inv w"
  by (rule race_inv_cong) (simp_all add: register_session_fd_event_def upd_client_def)

lemma state_register [simp]:
  "state (heap (register_session_fd_event c w) x) = state (heap w x)"
  by (simp add: register_session_fd_event_def upd_client_def)

lemma on_connect_race:
  assumes "race_inv w" and "state (heap w c) \<noteq> SSH_NONE"
    and "on_connect opts lib c w = Inr w'"
  shows "race_inv w'"
proof (cases "ssh_connect_r lib")
  case SSH_OK
  let ?w1 = "register_session_fd_event c w"
  let ?w2 = "emit (Debug (''Establishing connection to '' @ server_ip (heap ?w1 c))) ?w1"
  let ?w3 = "upd_client c (\<lambda>cl. cl\<lparr>state := SSH_AUTH_SERVER\<rparr>) ?w2"
  have "race_inv ?w2" using assms(1) by simp
  moreover have "state (heap ?w2 c) \<noteq> SSH_NONE" using assms(2) by (simp add: heap_emit)
  ultimately have "race_inv ?w3" by (rule race_inv_preauth) (simp add: past_auth_def)
  moreover have "state (heap ?w3 c) \<noteq> SSH_NONE" by (simp add: upd_client_def)
  moreover have "on_auth_server opts lib c ?w3 = Inr w'"
    using assms(3) SSH_OK by (simp add: on_connect_def Let_def)
  ultimately show ?thesis by (rule on_auth_server_race)
next
  case SSH_EOF
  with assms show ?thesis by (auto simp: on_connect_def intro: on_auth_server_race)
qed (use assms in \<open>auto simp: on_connect_def race_inv_reconnect\<close>)

lemma on_init_race:
  assumes "race_inv w" and "state (heap w c) \<noteq> SSH_NONE"
    and "on_init opts lib c w = Inr w'"
  shows "race_inv w'"
proof -
  let ?w1 = "upd_client c (\<lambda>cl. cl\<lparr>session := True, channel := True\<rparr>) w"
  let ?w2 = "case get_identity (tmate_identity opts) of
               Some identity \<Rightarrow> emit (OptionsSetIdentity c identity) ?w1
             | None \<Rightarrow> ?w1"
  let ?w3 = "upd_client c (\<lambda>cl. cl\<lparr>state := SSH_CONNECT\<rparr>) ?w2"
  have "race_inv ?w1 = race_inv w"
    by (rule race_inv_cong) (simp_all add: upd_client_def)
  then have "race_inv ?w2" using assms(1) by (simp split: option.splits)
  moreover have "state (heap ?w2 c) \<noteq> SSH_NONE"
    using assms(2) by (simp add: heap_emit upd_client_def split: option.splits)
  ultimately have "race_inv ?w3" by (rule race_inv_preauth) (simp add: past_auth_def)
  moreover have "state (heap ?w3 c) \<noteq> SSH_NONE" by (simp add: upd_client_def)
  moreover have "on_connect opts lib c ?w3 = Inr w'"
    using assms(3) by (simp add: on_init_def Let_def split: if_splits)
  ultimately show ?thesis by (rule on_connect_race)
qed

lemma on_ssh_client_event_race:
  assumes "race_inv w" and "on_ssh_client_event opts lib c w = Inr w'"
  shows "race_inv w'"
proof (cases "state (heap w c)")
  case SSH_NONE
  with assms show ?thesis by (simp add: on_ssh_client_event_def)
next
  case SSH_INIT
  with assms on_init_race [of w c opts lib w'] show ?thesis
    by (simp add: on_ssh_client_event_def)
next
  case SSH_CONNECT
  with assms on_connect_race [of w c opts lib w'] show ?thesis
    by (simp add: on_ssh_client_event_def)
next
  case SSH_AUTH_SERVER
  with assms on_auth_server_race [of w c opts lib w'] show ?thesis
    by (simp add: on_ssh_client_event_def)
next
  case SSH_AUTH_CLIENT
  with assms on_auth_client_race [of w c lib w'] show ?thesis
    by (simp add: on_ssh_client_event_def past_auth_def)
next
  case SSH_OPEN_CHANNEL
  with assms on_open_channel_race [of w c lib w'] show ?thesis
    by (simp add: on_ssh_client_event_def past_auth_def)
next
  case SSH_BOOTSTRAP
  with assms on_bootstrap_race [of w c lib w'] show ?thesis
    by (simp add: on_ssh_client_event_def past_auth_def)
next
  case SSH_READY
  with assms on_ready_race [of w lib c w'] show ?thesis
    by (simp add: on_ssh_client_event_def)
qed

lemma on_ssh_client_event_none:
  assumes "on_ssh_client_event opts lib c w = Inr w'" and "state (heap w x) = SSH_NONE"
  shows "state (heap w' x) = SSH_NONE"
proof (cases "x = c")
  case True
  with assms show ?thesis by (simp add: on_ssh_client_event_def)
next
  case False
  with on_ssh_client_event_frame [OF assms(1)] assms(2) show ?thesis
    by (auto simp: frame_def)
qed

lemma step_race:
  assumes "race_inv w" and "\<not> is_alloc i" and "step opts i w = Inr w'"
  shows "race_inv w' \<and> none_stays w w'"
proof (cases i)
  case (Readiness c lib)
  with assms show ?thesis
    by (auto simp: none_stays_def intro: on_ssh_client_event_race on_ssh_client_event_none)
next
  case (PassphraseRead p c lib)
  let ?v = "w\<lparr>passphrase := Some p\<rparr>"
  have "race_inv ?v" using assms(1) by (simp add: race_inv_def)
  moreover have "on_ssh_client_event opts lib c ?v = Inr w'"
    using assms(3) PassphraseRead by (simp add: on_passphrase_read_def)
  ultimately show ?thesis
    using on_ssh_client_event_none [of opts lib c ?v w']
    by (auto simp: none_stays_def intro: on_ssh_client_event_race)
next
  case (Alloc mem ip lib)
  with assms(2) show ?thesis by simp
qed

lemma run_race:
  "race_inv w \<Longrightarrow> readiness_only inputs \<Longrightarrow> run opts inputs w = Inr w' \<Longrightarrow>
   race_inv w' \<and> none_stays w w'"
proof (induction inputs arbitrary: w)
  case Nil
  then show ?case by (simp add: none_stays_def)
next
  case (Cons i inputs)
  from Cons.prems(3) obtain w1 where s: "step opts i w = Inr w1"
      and r: "run opts inputs w1 = Inr w'"
    by (auto split: sum.splits)
  from Cons.prems(2) have i: "\<not> is_alloc i" and rest: "readiness_only inputs"
    by (simp_all add: readiness_only_def)
  from step_race [OF Cons.prems(1) i s] have w1: "race_inv w1" "none_stays w w1" by simp_all
  from Cons.IH [OF w1(1) rest r] w1(2) show ?case by (auto simp: none_stays_def)
qed

lemma race_unique:
  assumes "race_inv w0" and "readiness_only inputs" and "readiness_only inputs'"
    and "run opts inputs w0 = Inr w1" and "run opts inputs' w1 = Inr w2"
    and "state (heap w1 c1) = SSH_READY" and "state (heap w2 c2) = SSH_READY"
  shows "c2 = c1"
proof (rule ccontr)
  assume ne: "c2 \<noteq> c1"
  have w1: "race_inv w1" using run_race [OF assms(1,2,4)] by simp
  have "past_auth (state (heap w1 c1))" using assms(6) by (simp add: past_auth_def)
  with w1 ne have "state (heap w1 c2) = SSH_NONE" unfolding race_inv_def by blast
  with run_race [OF w1 assms(3,5)] have "state (heap w2 c2) = SSH_NONE"
    by (simp add: none_stays_def)
  with assms(7) show False by simp
qed

lemma distinct_singleton_set:
  assumes "distinct xs" and "set xs = {c}"
  shows "xs = [c]"
proof (cases xs)
  case Nil
  with assms show ?thesis by simp
next
  case (Cons a list)
  with assms have "a = c" "set list \<subseteq> {c}" "c \<notin> set list" by auto
  then have "list = []" by (cases list) auto
  with Cons \<open>a = c\<close> show ?thesis by simp
qed

lemma clients_emit: "clients (emit e w) = clients w"
  by (simp add: emit_def)

lemma trace_emit: "trace (emit e w) = trace w @ [e]"
  by (simp add: emit_def)

lemma win_sequence:
  assumes d: "distinct (clients w)" and m: "c \<in> set (clients w)"
    and ok: "ssh_get_publickey_r lib" "ssh_get_publickey_hash_r lib"
      "ssh_get_hexa_r lib = Some hash_str"
      "hash_str = server_hash_str opts (ssh_key_type_r lib)"
  shows "if \<exists>x\<in>set (clients w). x \<noteq> c \<and> has_encoder (heap w x)
     then on_auth_server opts lib c w = Inl AssertFailed
     else \<exists>w'. on_ssh_auth_server_complete c
                  (emit (Debug (''Connected to '' @ server_ip (heap w c))) w) = Inr w' \<and>
            on_auth_server opts lib c w =
              on_auth_client lib c (upd_client c (\<lambda>cl. cl\<lparr>state := SSH_AUTH_CLIENT\<rparr>) w') \<and>
            clients w' = [c] \<and> heap w' c = heap w c \<and>
            (\<forall>x\<in>set (clients w). x \<noteq> c \<longrightarrow>
               state (heap w' x) = SSH_NONE \<and> freed (heap w' x) \<and> \<not> session (heap w' x) \<and>
               TailqRemove x \<in> set (since w w') \<and> Free x \<in> set (since w w')) \<and>
            status_messages (since w w') = []"
proof -
  let ?w0 = "emit (Debug (''Connected to '' @ server_ip (heap w c))) w"
  note w0 = clients_emit heap_emit trace_emit
  have s: "on_auth_server opts lib c w =
      (case kill_other_clients c (clients w) ?w0 of
         Inl e \<Rightarrow> Inl e
       | Inr w1 \<Rightarrow> on_auth_client lib c (upd_client c (\<lambda>cl. cl\<lparr>state := SSH_AUTH_CLIENT\<rparr>) w1))"
    using ok by (simp add: on_auth_server_def on_ssh_auth_server_complete_def w0)
  show ?thesis
  proof (cases "\<exists>x\<in>set (clients w). x \<noteq> c \<and> has_encoder (heap w x)")
    case True
    then have "\<exists>x\<in>set (clients w). x \<noteq> c \<and> has_encoder (heap ?w0 x)" by (auto simp: w0)
    then have "kill_other_clients c (clients w) ?w0 = Inl AssertFailed"
      by (rule kill_other_clients_assert_fails)
    with s have "on_auth_server opts lib c w = Inl AssertFailed" by simp
    then show ?thesis unfolding if_P [OF True] .
  next
    case False
    then have "\<forall>x\<in>set (clients w). x \<noteq> c \<longrightarrow> \<not> has_encoder (heap ?w0 x)" by (auto simp: w0)
    then obtain w' where w': "kill_other_clients c (clients w) ?w0 = Inr w'"
      using kill_other_clients_succeeds by blast
    have "distinct (clients ?w0)" using d by (simp add: w0)
    from kill_other_clients_clients [OF w' this]
    have "distinct (clients w')" "set (clients w') = {c}" using m by (auto simp: w0)
    then have c1: "clients w' = [c]" by (rule distinct_singleton_set)
    note h = kill_other_clients_heap [OF w']
    obtain es where es: "trace w' = trace ?w0 @ es" "status_messages es = []"
        "\<forall>x\<in>set (clients w). x \<noteq> c \<longrightarrow> Free x \<in> set es \<and> TailqRemove x \<in> set es"
      using kill_other_clients_trace [OF w'] by blast
    have t: "since w w' = Debug (''Connected to '' @ server_ip (heap w c)) # es"
      using es(1) by (simp add: since_def w0)
    have sib: "\<forall>x\<in>set (clients w). x \<noteq> c \<longrightarrow>
               state (heap w' x) = SSH_NONE \<and> freed (heap w' x) \<and> \<not> session (heap w' x) \<and>
               TailqRemove x \<in> set (since w w') \<and> Free x \<in> set (since w w')"
      using h es(3) t by auto
    have sm: "status_messages (since w w') = []" using es(2) t by simp
    have hc: "heap w' c = heap w c" using h by (simp add: w0)
    have co: "on_ssh_auth_server_complete c ?w0 = Inr w'"
      using w' by (simp add: on_ssh_auth_server_complete_def w0)
    have st: "on_auth_server opts lib c w =
        on_auth_client lib c (upd_client c (\<lambda>cl. cl\<lparr>state := SSH_AUTH_CLIENT\<rparr>) w')"
      using s w' by simp
    show ?thesis unfolding if_not_P [OF False]
      by (intro exI [of _ w'] conjI co st c1 hc sib sm)
  qed
qed

text \<open>
  Sessions in which the race is in order exist: a new session is one, and so is every
  session set up from it by allocations during which the connection does not complete.
\<close>

lemma race_open_race_inv: "race_open w \<Longrightarrow> race_inv w"
  by (simp add: race_open_def race_inv_def)

lemma race_open_new_session: "race_open new_session"
  by (simp add: race_open_def new_session_def null_client_def past_auth_def)

lemma race_open_allocated:
  assumes "race_open w"
  shows "race_open (upd_client (next_client w) (\<lambda>cl. cl\<lparr>state := SSH_CONNECT\<rparr>) (allocated mem ip w))"
  using assms unfolding race_open_def allocated_def upd_client_def
  by (auto simp: past_auth_def)

lemma race_open_cong:
  "clients w' = clients w \<Longrightarrow> next_client w' = next_client w \<Longrightarrow>
   (\<forall>c. state (heap w' c) = state (heap w c)) \<Longrightarrow> race_open w' = race_open w"
  by (simp add: race_open_def)

lemma race_open_reconnect:
  assumes "race_open w"
  shows "race_open (reconnect_ssh_client c fmt w)"
proof -
  let ?w' = "reconnect_ssh_client c fmt w"
  have s: "state (heap ?w' x) = (if x = c then SSH_NONE else state (heap w x))" for x
    by (simp add: heap_reconnect_self heap_reconnect_other)
  have n: "next_client ?w' = next_client w" by (simp add: session_fields_reconnect)
  show ?thesis
    using assms unfolding race_open_def s n clients_reconnect
    by (auto simp: past_auth_def dest: notin_set_remove1)
qed

lemma alloc_connecting:
  assumes "race_open w" and "connecting (Alloc mem ip lib)"
    and "step opts (Alloc mem ip lib) w = Inr w'"
  shows "race_open w'"
proof -
  let ?c = "next_client w"
  let ?w1 = "upd_client ?c (\<lambda>cl. cl\<lparr>session := True, channel := True\<rparr>) (allocated mem ip w)"
  let ?w2 = "case get_identity (tmate_identity opts) of
               Some identity \<Rightarrow> emit (OptionsSetIdentity ?c identity) ?w1
             | None \<Rightarrow> ?w1"
  let ?w3 = "upd_client ?c (\<lambda>cl. cl\<lparr>state := SSH_CONNECT\<rparr>) ?w2"
  have st: "state (heap (allocated mem ip w) ?c) = SSH_INIT" by (simp add: allocated_def)
  have r: "on_connect opts lib ?c ?w3 = Inr w'"
    using assms(3) st
    by (simp add: tmate_ssh_client_alloc_allocated on_ssh_client_event_def on_init_def Let_def
        split: if_splits)
  have "race_open ?w3 =
      race_open (upd_client ?c (\<lambda>cl. cl\<lparr>state := SSH_CONNECT\<rparr>) (allocated mem ip w))"
    by (rule race_open_cong) (simp_all add: upd_client_def emit_def split: option.splits)
  then have o: "race_open ?w3" using race_open_allocated [OF assms(1)] by simp
  from assms(2) consider "ssh_connect_r lib = SSH_AGAIN" | "ssh_connect_r lib = SSH_ERROR"
    by auto
  then show ?thesis
  proof cases
    case 1
    with r have "w' = register_session_fd_event ?c ?w3" by (simp add: on_connect_def)
    moreover have "race_open (register_session_fd_event ?c ?w3) = race_open ?w3"
      by (rule race_open_cong) (simp_all add: register_session_fd_event_def upd_client_def)
    ultimately show ?thesis using o by simp
  next
    case 2
    with r have "w' = reconnect_ssh_client ?c
        (Some (''Error connecting: '' @ ssh_get_error_r lib)) ?w3"
      by (simp add: on_connect_def)
    then show ?thesis using race_open_reconnect [OF o] by simp
  qed
qed

lemma setup_race_inv:
  "race_open w \<Longrightarrow> list_all connecting inputs \<Longrightarrow> run opts inputs w = Inr w' \<Longrightarrow>
   race_open w'"
proof (induction inputs arbitrary: w)
  case Nil
  then show ?case by simp
next
  case (Cons i inputs)
  from Cons.prems(3) obtain w1 where s: "step opts i w = Inr w1"
      and r: "run opts inputs w1 = Inr w'"
    by (auto split: sum.splits)
  from Cons.prems(2) have i: "connecting i" and rest: "list_all connecting inputs"
    by simp_all
  from i obtain mem ip lib where a: "i = Alloc mem ip lib" by (cases i) auto
  have "race_open w1" using alloc_connecting [OF Cons.prems(1)] i s unfolding a by blast
  from Cons.IH [OF this rest r] show ?case .
qed

subsection \<open>The flag has_encoder and the single winner\<close>

lemma bridge_read_channel:
  "encoder (read_channel c err lens w) = encoder w \<and>
   decoder (read_channel c err lens w) = decoder w"
  by (induction lens arbitrary: w) (simp_all add: session_fields_reconnect emit_def)

lemma on_bootstrap_bridge:
  assumes "ssh_channel_request_subsystem_r lib = SSH_OK" and "on_bootstrap lib c w = Inr w'"
  shows "encoder w' = Some c \<and> decoder w' = Some c"
  using assms
  by (auto simp: on_bootstrap_def on_ready_def Let_def bridge_read_channel
      session_fields_reconnect split: if_splits)

text \<open>
  Claim C10. \<open>tmate_ssh_client_alloc\<close> clears \<open>has_encoder\<close> whatever the allocated memory
  held, and nothing sets it: a step leaves every client's flag as it was, except that an
  allocation clears the flag of the new client. From a session in which no client has the
  flag, no run of allocations, readiness events and typed passphrases reaches a session in
  which a client has it, and no such run ends in the failed assertion of
  \<open>on_ssh_auth_server_complete\<close>. The successful \<^verbatim>\<open>case SSH_BOOTSTRAP\<close> wires the encoder and the decoder to the client and
  leaves the flag clear. The instance below is a run in which a client that is ready, with the encoder
  and decoder wired to it, is eliminated by a client allocated after it: the assertion passes.
\<close>

theorem has_encoder_never_set:
  assumes "no_encoder w0"
  shows
    "run opts inputs w0 \<noteq> Inl AssertFailed \<and>
     (\<forall>w. run opts inputs w0 = Inr w \<longrightarrow> no_encoder w) \<and>
     (\<forall>i w w' x.
        step opts i w = Inr w' \<longrightarrow>
        has_encoder (heap w' x) =
          (has_encoder (heap w x) \<and> \<not> (is_alloc i \<and> x = next_client w))) \<and>
     (\<forall>lib mem ip w'.
        tmate_ssh_client_alloc opts lib mem ip w0 = Inr w' \<longrightarrow>
        \<not> has_encoder (heap w' (next_client w0))) \<and>
     (\<forall>lib c w'.
        ssh_channel_request_subsystem_r lib = SSH_OK \<and> on_bootstrap lib c w0 = Inr w' \<longrightarrow>
        encoder w' = Some c \<and> decoder w' = Some c \<and> \<not> has_encoder (heap w' c))"
proof (intro conjI allI impI)
  show "run opts inputs w0 \<noteq> Inl AssertFailed"
    using run_no_encoder [OF assms] by simp
next
  fix w assume "run opts inputs w0 = Inr w"
  then show "no_encoder w" using run_no_encoder [OF assms] by simp
next
  fix i and w w' :: tmate_session and x
  assume "step opts i w = Inr w'"
  then show "has_encoder (heap w' x) =
      (has_encoder (heap w x) \<and> \<not> (is_alloc i \<and> x = next_client w))"
    by (rule step_has_encoder)
next
  fix lib mem ip w'
  assume "tmate_ssh_client_alloc opts lib mem ip w0 = Inr w'"
  then have "step opts (Alloc mem ip lib) w0 = Inr w'" by simp
  with step_no_encoder [OF assms] have "no_encoder w'" by blast
  then show "\<not> has_encoder (heap w' (next_client w0))" by (simp add: no_encoder_def)
next
  fix lib c w'
  assume a: "ssh_channel_request_subsystem_r lib = SSH_OK \<and> on_bootstrap lib c w0 = Inr w'"
  then have "encoder w' = Some c \<and> decoder w' = Some c"
    using on_bootstrap_bridge [of lib c w0 w'] by simp
  then show "encoder w' = Some c" "decoder w' = Some c" by simp_all
  from a on_bootstrap_frame [of lib c w0] have "frame c w0 w'" by auto
  then show "\<not> has_encoder (heap w' c)"
    using assms by (simp add: frame_def no_encoder_def)
qed

theorem has_encoder_never_set_witness:
  "no_encoder new_session \<and>
   ready_with_bridge late_comer 0 \<and> clients late_comer = [0, 1] \<and>
   state (heap late_comer 1) = SSH_CONNECT \<and> \<not> has_encoder (heap late_comer 0) \<and>
   (case run ex_opts
      [Alloc null_client ''10.0.0.1'' lib_again,
       Readiness 0 lib_ok,
       Alloc (null_client\<lparr>has_encoder := True\<rparr>) ''10.0.0.2'' lib_again,
       Readiness 1 lib_ok]
      new_session of
    Inr w \<Rightarrow>
      clients w = [1] \<and> freed (heap w 0) \<and> state (heap w 0) = SSH_NONE \<and>
      ready_with_bridge w 1 \<and> \<not> has_encoder (heap w 0) \<and> \<not> has_encoder (heap w 1)
  | Inl e \<Rightarrow> False)"
  using has_encoder_never_set [of new_session ex_opts
      "[Alloc null_client ''10.0.0.1'' lib_again,
        Readiness 0 lib_ok,
        Alloc (null_client\<lparr>has_encoder := True\<rparr>) ''10.0.0.2'' lib_again,
        Readiness 1 lib_ok]"]
  by (simp add: machine_defs example_defs teardown_defs no_encoder_def ready_with_bridge_def
      Let_def)

text \<open>
  What holds while no client is allocated after another has passed the authentication of the
  server. Take a session in which the race is in order (\<open>race_inv\<close>; by \<open>setup_race_inv\<close> a
  session set up by allocations during which no connection completes is one) and any
  readiness events and typed passphrases, with any answers of the libraries, that run without
  a fatal error. A client that is ready with the encoder and decoder wired to it at one point
  of the run is the only client that is so at any later point. While a client is still before
  its client authentication, no other client is ready with the bridge. For any session whose
  queue holds the client once: when the host key matches, either a sibling in the queue has
  the flag \<open>has_encoder\<close> and the assertion aborts, or every sibling in the queue is killed
  by \<open>kill_ssh_client\<close> with a NULL message before the client authentication starts: the
  queue is then the client alone, each sibling was removed and freed and is in \<open>SSH_NONE\<close>,
  and no message was shown to the user.
\<close>

lemma race_in_order:
  assumes "race_inv w0" and "readiness_only inputs" and "readiness_only inputs'"
    and "run opts inputs w0 = Inr w1" and "run opts inputs' w1 = Inr w2"
  shows
    "(\<forall>c1 c2. ready_with_bridge w1 c1 \<and> ready_with_bridge w2 c2 \<longrightarrow> c2 = c1) \<and>
     (\<forall>c x. state (heap w1 c) \<noteq> SSH_NONE \<and> \<not> past_auth (state (heap w1 c)) \<and> x \<noteq> c \<longrightarrow>
        \<not> ready_with_bridge w1 x) \<and>
     (\<forall>w c lib hash_str.
        distinct (clients w) \<and> c \<in> set (clients w) \<and>
        ssh_get_publickey_r lib \<and> ssh_get_publickey_hash_r lib \<and>
        ssh_get_hexa_r lib = Some hash_str \<and>
        hash_str = server_hash_str opts (ssh_key_type_r lib) \<longrightarrow>
        (if \<exists>x\<in>set (clients w). x \<noteq> c \<and> has_encoder (heap w x)
         then on_auth_server opts lib c w = Inl AssertFailed
         else \<exists>w'. on_ssh_auth_server_complete c
                      (emit (Debug (''Connected to '' @ server_ip (heap w c))) w) = Inr w' \<and>
                on_auth_server opts lib c w =
                  on_auth_client lib c
                    (upd_client c (\<lambda>cl. cl\<lparr>state := SSH_AUTH_CLIENT\<rparr>) w') \<and>
                clients w' = [c] \<and> heap w' c = heap w c \<and>
                (\<forall>x\<in>set (clients w). x \<noteq> c \<longrightarrow>
                   state (heap w' x) = SSH_NONE \<and> freed (heap w' x) \<and>
                   \<not> session (heap w' x) \<and>
                   TailqRemove x \<in> set (since w w') \<and> Free x \<in> set (since w w')) \<and>
                status_messages (since w w') = []))"
proof (intro conjI allI impI)
  fix c1 c2
  assume "ready_with_bridge w1 c1 \<and> ready_with_bridge w2 c2"
  then have "state (heap w1 c1) = SSH_READY" "state (heap w2 c2) = SSH_READY"
    by (simp_all add: ready_with_bridge_def)
  with assms show "c2 = c1" by (rule race_unique)
next
  fix c x
  assume a: "state (heap w1 c) \<noteq> SSH_NONE \<and> \<not> past_auth (state (heap w1 c)) \<and> x \<noteq> c"
  have w1: "race_inv w1" using run_race [OF assms(1,2,4)] by simp
  show "\<not> ready_with_bridge w1 x"
  proof
    assume "ready_with_bridge w1 x"
    then have "past_auth (state (heap w1 x))" by (simp add: ready_with_bridge_def past_auth_def)
    with w1 a have "c = x" unfolding race_inv_def by blast
    with a show False by simp
  qed
next
  fix w :: tmate_session and c and lib :: ssh_lib and hash_str
  assume "distinct (clients w) \<and> c \<in> set (clients w) \<and>
        ssh_get_publickey_r lib \<and> ssh_get_publickey_hash_r lib \<and>
        ssh_get_hexa_r lib = Some hash_str \<and>
        hash_str = server_hash_str opts (ssh_key_type_r lib)"
  then show "if \<exists>x\<in>set (clients w). x \<noteq> c \<and> has_encoder (heap w x)
         then on_auth_server opts lib c w = Inl AssertFailed
         else \<exists>w'. on_ssh_auth_server_complete c
                      (emit (Debug (''Connected to '' @ server_ip (heap w c))) w) = Inr w' \<and>
                on_auth_server opts lib c w =
                  on_auth_client lib c
                    (upd_client c (\<lambda>cl. cl\<lparr>state := SSH_AUTH_CLIENT\<rparr>) w') \<and>
                clients w' = [c] \<and> heap w' c = heap w c \<and>
                (\<forall>x\<in>set (clients w). x \<noteq> c \<longrightarrow>
                   state (heap w' x) = SSH_NONE \<and> freed (heap w' x) \<and>
                   \<not> session (heap w' x) \<and>
                   TailqRemove x \<in> set (since w w') \<and> Free x \<in> set (since w w')) \<and>
                status_messages (since w w') = []"
    using win_sequence [of w c lib hash_str opts] by blast
qed

text \<open>
  Claim C1 fails on the code. A client is allocated, connects and becomes ready, with the
  encoder and the decoder wired to it; a second client is allocated afterwards and waits for
  its connection. At the next readiness event the second client's host key matches:
  \<open>on_ssh_auth_server_complete\<close> tests the first client's flag \<open>has_encoder\<close>, which nothing
  has set, kills and frees the first client without a failed assertion, and the second client
  becomes ready with the encoder and the decoder wired to it. Two clients have been ready with
  the bridge, one after the other. Had the flag of the first client been set, the same event
  would have ended in the failed assertion.
\<close>

theorem ready_sibling_eliminated_unasserted:
  "ready_with_bridge late_comer 0 \<and> \<not> ready_with_bridge late_comer 1 \<and>
   clients late_comer = [0, 1] \<and> state (heap late_comer 1) = SSH_CONNECT \<and>
   \<not> has_encoder (heap late_comer 0) \<and>
   (case run ex_opts [Readiness 1 lib_ok] late_comer of
      Inr w \<Rightarrow>
        clients w = [1] \<and> freed (heap w 0) \<and> state (heap w 0) = SSH_NONE \<and>
        ready_with_bridge w 1 \<and> status_messages (since late_comer w) = []
    | Inl e \<Rightarrow> False) \<and>
   run ex_opts [Readiness 1 lib_ok]
     (upd_client 0 (\<lambda>cl. cl\<lparr>has_encoder := True\<rparr>) late_comer) = Inl AssertFailed"
  by (simp add: machine_defs example_defs teardown_defs ready_with_bridge_def since_def Let_def)

end
